theory Spec2Isabelle
  imports Complex_Main
begin

section \<open>JavaScript numbers\<close>

text \<open>
  Every coordinate, UV value and size handled by \<^verbatim>\<open>BufferGeometry.js\<close> is a JavaScript
  number. The model keeps the three special values the source tests for
  (\<^verbatim>\<open>isNaN\<close>, \<^verbatim>\<open>isFinite\<close>, \<^verbatim>\<open>Infinity\<close>) and takes a finite number to be a real:
  rounding, overflow of finite arithmetic and the sign of zero are not modelled
  (a division by zero yields the infinity of the dividend's sign). A read of
  \<^verbatim>\<open>undefined\<close> in numeric position behaves as \<^verbatim>\<open>NaN\<close> in every operation used here,
  so both are the one value \<open>NaN\<close>.
\<close>

datatype number = Fin real | PInf | NInf | NaN

fun isNaN :: "number \<Rightarrow> bool" where
  "isNaN NaN = True"
| "isNaN _ = False"

fun isFinite :: "number \<Rightarrow> bool" where
  "isFinite (Fin _) = True"
| "isFinite _ = False"

fun num_neg :: "number \<Rightarrow> number" where
  "num_neg (Fin a) = Fin (- a)"
| "num_neg PInf = NInf"
| "num_neg NInf = PInf"
| "num_neg NaN = NaN"

fun num_add :: "number \<Rightarrow> number \<Rightarrow> number" where
  "num_add (Fin a) (Fin b) = Fin (a + b)"
| "num_add (Fin a) PInf = PInf"
| "num_add (Fin a) NInf = NInf"
| "num_add PInf (Fin b) = PInf"
| "num_add PInf PInf = PInf"
| "num_add NInf (Fin b) = NInf"
| "num_add NInf NInf = NInf"
| "num_add _ _ = NaN"

definition num_sub :: "number \<Rightarrow> number \<Rightarrow> number" where
  "num_sub a b = num_add a (num_neg b)"

fun num_mul :: "number \<Rightarrow> number \<Rightarrow> number" where
  "num_mul (Fin a) (Fin b) = Fin (a * b)"
| "num_mul (Fin a) PInf = (if a = 0 then NaN else if 0 < a then PInf else NInf)"
| "num_mul (Fin a) NInf = (if a = 0 then NaN else if 0 < a then NInf else PInf)"
| "num_mul PInf (Fin b) = (if b = 0 then NaN else if 0 < b then PInf else NInf)"
| "num_mul NInf (Fin b) = (if b = 0 then NaN else if 0 < b then NInf else PInf)"
| "num_mul PInf PInf = PInf"
| "num_mul PInf NInf = NInf"
| "num_mul NInf PInf = NInf"
| "num_mul NInf NInf = PInf"
| "num_mul _ _ = NaN"

fun num_div :: "number \<Rightarrow> number \<Rightarrow> number" where
  "num_div (Fin a) (Fin b) =
     (if b = 0 then (if a = 0 then NaN else if 0 < a then PInf else NInf)
      else Fin (a / b))"
| "num_div (Fin a) PInf = Fin 0"
| "num_div (Fin a) NInf = Fin 0"
| "num_div PInf (Fin b) = (if 0 \<le> b then PInf else NInf)"
| "num_div NInf (Fin b) = (if 0 \<le> b then NInf else PInf)"
| "num_div _ _ = NaN"

text \<open>The comparisons \<^verbatim>\<open><\<close> and \<^verbatim>\<open><=\<close>: false as soon as one side is \<open>NaN\<close>.\<close>

fun num_lt :: "number \<Rightarrow> number \<Rightarrow> bool" where
  "num_lt (Fin a) (Fin b) = (a < b)"
| "num_lt (Fin a) PInf = True"
| "num_lt NInf (Fin b) = True"
| "num_lt NInf PInf = True"
| "num_lt _ _ = False"

fun num_le :: "number \<Rightarrow> number \<Rightarrow> bool" where
  "num_le (Fin a) (Fin b) = (a \<le> b)"
| "num_le (Fin a) PInf = True"
| "num_le NInf (Fin b) = True"
| "num_le NInf PInf = True"
| "num_le PInf PInf = True"
| "num_le NInf NInf = True"
| "num_le _ _ = False"

text \<open>\<^verbatim>\<open>Math.min\<close>, \<^verbatim>\<open>Math.max\<close>: \<open>NaN\<close> as soon as one argument is \<open>NaN\<close>.\<close>

definition Math_min :: "number \<Rightarrow> number \<Rightarrow> number" where
  "Math_min a b = (if isNaN a \<or> isNaN b then NaN else if num_lt b a then b else a)"

definition Math_max :: "number \<Rightarrow> number \<Rightarrow> number" where
  "Math_max a b = (if isNaN a \<or> isNaN b then NaN else if num_lt a b then b else a)"

fun Math_sqrt :: "number \<Rightarrow> number" where
  "Math_sqrt (Fin a) = (if a < 0 then NaN else Fin (sqrt a))"
| "Math_sqrt PInf = PInf"
| "Math_sqrt _ = NaN"

section \<open>Vectors, boxes and spheres\<close>

text \<open>
  Modelled from the spec: the math collaborators (\<^verbatim>\<open>Vector2\<close>, \<^verbatim>\<open>Vector3\<close>, \<^verbatim>\<open>Box3\<close>,
  \<^verbatim>\<open>Sphere\<close>) are imported by the source and not part of it. The spec gives their
  contract: component-wise vector arithmetic, dot and cross product, normalisation,
  squared distance, and for a box "fit from buffer", "expand by point", "get center"
  and emptiness. The component names \<^verbatim>\<open>x\<close>, \<^verbatim>\<open>y\<close>, \<^verbatim>\<open>z\<close> are written \<open>vx\<close>, \<open>vy\<close>, \<open>vz\<close>
  (and \<open>ux\<close>, \<open>uy\<close> for a \<^verbatim>\<open>Vector2\<close>).
\<close>

datatype Vector3 = Vector3 (vx: number) (vy: number) (vz: number)

datatype Vector2 = Vector2 (ux: number) (uy: number)

definition addVectors :: "Vector3 \<Rightarrow> Vector3 \<Rightarrow> Vector3" where
  "addVectors a b = Vector3 (num_add (vx a) (vx b)) (num_add (vy a) (vy b)) (num_add (vz a) (vz b))"

definition subVectors :: "Vector3 \<Rightarrow> Vector3 \<Rightarrow> Vector3" where
  "subVectors a b = Vector3 (num_sub (vx a) (vx b)) (num_sub (vy a) (vy b)) (num_sub (vz a) (vz b))"

definition multiplyScalar :: "Vector3 \<Rightarrow> number \<Rightarrow> Vector3" where
  "multiplyScalar v s = Vector3 (num_mul (vx v) s) (num_mul (vy v) s) (num_mul (vz v) s)"

definition addScaledVector :: "Vector3 \<Rightarrow> Vector3 \<Rightarrow> number \<Rightarrow> Vector3" where
  "addScaledVector a v s =
     Vector3 (num_add (vx a) (num_mul (vx v) s)) (num_add (vy a) (num_mul (vy v) s))
       (num_add (vz a) (num_mul (vz v) s))"

definition dot :: "Vector3 \<Rightarrow> Vector3 \<Rightarrow> number" where
  "dot a b = num_add (num_add (num_mul (vx a) (vx b)) (num_mul (vy a) (vy b))) (num_mul (vz a) (vz b))"

definition crossVectors :: "Vector3 \<Rightarrow> Vector3 \<Rightarrow> Vector3" where
  "crossVectors a b =
     Vector3 (num_sub (num_mul (vy a) (vz b)) (num_mul (vz a) (vy b)))
             (num_sub (num_mul (vz a) (vx b)) (num_mul (vx a) (vz b)))
             (num_sub (num_mul (vx a) (vy b)) (num_mul (vy a) (vx b)))"

definition vec_length :: "Vector3 \<Rightarrow> number" where
  "vec_length v = Math_sqrt (dot v v)"

text \<open>
  \<^verbatim>\<open>normalize()\<close> divides by \<^verbatim>\<open>this.length() || 1\<close>: a length that is zero or \<open>NaN\<close> is
  falsy and replaced by 1.
\<close>

definition normalize :: "Vector3 \<Rightarrow> Vector3" where
  "normalize v =
     (let l = vec_length v;
          d = (if l = Fin 0 \<or> isNaN l then Fin 1 else l)
      in multiplyScalar v (num_div (Fin 1) d))"

definition distanceToSquared :: "Vector3 \<Rightarrow> Vector3 \<Rightarrow> number" where
  "distanceToSquared a b =
     (let dx = num_sub (vx a) (vx b); dy = num_sub (vy a) (vy b); dz = num_sub (vz a) (vz b)
      in num_add (num_add (num_mul dx dx) (num_mul dy dy)) (num_mul dz dz))"

definition subVectors2 :: "Vector2 \<Rightarrow> Vector2 \<Rightarrow> Vector2" where
  "subVectors2 a b = Vector2 (num_sub (ux a) (ux b)) (num_sub (uy a) (uy b))"

record Box3 =
  box_min :: Vector3
  box_max :: Vector3

text \<open>A new or emptied box: \<^verbatim>\<open>min = (+Infinity)\<close>, \<^verbatim>\<open>max = (-Infinity)\<close> on every axis.\<close>

definition makeEmpty :: Box3 where
  "makeEmpty = \<lparr>box_min = Vector3 PInf PInf PInf, box_max = Vector3 NInf NInf NInf\<rparr>"

definition vec_min :: "Vector3 \<Rightarrow> Vector3 \<Rightarrow> Vector3" where
  "vec_min a b = Vector3 (Math_min (vx a) (vx b)) (Math_min (vy a) (vy b)) (Math_min (vz a) (vz b))"

definition vec_max :: "Vector3 \<Rightarrow> Vector3 \<Rightarrow> Vector3" where
  "vec_max a b = Vector3 (Math_max (vx a) (vx b)) (Math_max (vy a) (vy b)) (Math_max (vz a) (vz b))"

definition expandByPoint :: "Box3 \<Rightarrow> Vector3 \<Rightarrow> Box3" where
  "expandByPoint b p = \<lparr>box_min = vec_min (box_min b) p, box_max = vec_max (box_max b) p\<rparr>"

definition isEmpty :: "Box3 \<Rightarrow> bool" where
  "isEmpty b \<longleftrightarrow>
     num_lt (vx (box_max b)) (vx (box_min b)) \<or> num_lt (vy (box_max b)) (vy (box_min b))
     \<or> num_lt (vz (box_max b)) (vz (box_min b))"

definition getCenter :: "Box3 \<Rightarrow> Vector3" where
  "getCenter b =
     (if isEmpty b then Vector3 (Fin 0) (Fin 0) (Fin 0)
      else multiplyScalar (addVectors (box_min b) (box_max b)) (Fin (1/2)))"

record Sphere =
  center :: Vector3
  radius :: number

text \<open>\<^verbatim>\<open>new Sphere()\<close>: centred at the origin with radius \<open>-1\<close>.\<close>

definition Sphere_new :: Sphere where
  "Sphere_new = \<lparr>center = Vector3 (Fin 0) (Fin 0) (Fin 0), radius = Fin (- 1)\<rparr>"

section \<open>Attribute buffers\<close>

text \<open>
  Modelled from the spec: \<^verbatim>\<open>BufferAttribute.js\<close> is imported by the source and not part
  of it. An attribute buffer owns a flat numeric backing array and an item width; its
  count is the array length divided by the item width (the data model's invariant makes
  the division exact), and readers and mutators address component tuples by vertex
  index. The source also probes the flags \<^verbatim>\<open>isInterleavedBufferAttribute\<close> (with
  \<^verbatim>\<open>data.stride\<close> and \<^verbatim>\<open>offset\<close>) and \<^verbatim>\<open>isGLBufferAttribute\<close>, and sets \<^verbatim>\<open>needsUpdate\<close>.
  Buffers are owned by the slot they are installed in: no two slots share one array.
  The numbers of an array are taken as they are stored: the scaling the accessors apply
  to a normalized integer array and the rounding of a store into a typed array are not
  modelled.
\<close>

record BufferAttribute =
  array :: "number list"
  itemSize :: nat
  normalized :: bool
  needsUpdate :: bool
  isInterleavedBufferAttribute :: bool
  stride :: nat
  offset :: nat
  isGLBufferAttribute :: bool

text \<open>\<^verbatim>\<open>new BufferAttribute(array, itemSize, normalized)\<close>.\<close>

definition BufferAttribute_new :: "number list \<Rightarrow> nat \<Rightarrow> bool \<Rightarrow> BufferAttribute" where
  "BufferAttribute_new arr n nrm =
     \<lparr>array = arr, itemSize = n, normalized = nrm, needsUpdate = False,
      isInterleavedBufferAttribute = False, stride = 0, offset = 0,
      isGLBufferAttribute = False\<rparr>"

text \<open>\<^verbatim>\<open>new Float32Array(n)\<close>: \<open>n\<close> zeros.\<close>

definition Float32Array :: "nat \<Rightarrow> number list" where
  "Float32Array n = replicate n (Fin 0)"

definition attr_count :: "BufferAttribute \<Rightarrow> nat" where
  "attr_count a =
     (if isInterleavedBufferAttribute a then length (array a) div stride a
      else length (array a) div itemSize a)"

text \<open>
  The data model's invariant: the array length is an exact multiple of the item width
  (of the stride, for an interleaved attribute), which is positive.
\<close>

definition wellFormed :: "BufferAttribute \<Rightarrow> bool" where
  "wellFormed a \<longleftrightarrow>
     (if isInterleavedBufferAttribute a
      then 0 < stride a \<and> length (array a) mod stride a = 0
      else 0 < itemSize a \<and> length (array a) mod itemSize a = 0)"

text \<open>The position in the backing array of the first component of vertex \<open>i\<close>.\<close>

definition vertexBase :: "BufferAttribute \<Rightarrow> nat \<Rightarrow> nat" where
  "vertexBase a i =
     (if isInterleavedBufferAttribute a then i * stride a + offset a else i * itemSize a)"

text \<open>
  Reading a typed array out of range gives \<^verbatim>\<open>undefined\<close>; writing out of range is
  ignored.
\<close>

definition getCell :: "number list \<Rightarrow> nat \<Rightarrow> number" where
  "getCell arr c = (if c < length arr then arr ! c else NaN)"

definition setCell :: "number list \<Rightarrow> nat \<Rightarrow> number \<Rightarrow> number list" where
  "setCell arr c v = (if c < length arr then arr[c := v] else arr)"

definition getComponent :: "BufferAttribute \<Rightarrow> nat \<Rightarrow> nat \<Rightarrow> number" where
  "getComponent a i j = getCell (array a) (vertexBase a i + j)"

text \<open>
  A vertex index read from the index buffer may itself be \<^verbatim>\<open>undefined\<close> (\<open>None\<close>);
  every component read at it is \<^verbatim>\<open>undefined\<close>.
\<close>

definition fromBufferAttribute :: "BufferAttribute \<Rightarrow> nat option \<Rightarrow> Vector3" where
  "fromBufferAttribute a v =
     (case v of
        None \<Rightarrow> Vector3 NaN NaN NaN
      | Some i \<Rightarrow> Vector3 (getComponent a i 0) (getComponent a i 1) (getComponent a i 2))"

definition fromBufferAttribute2 :: "BufferAttribute \<Rightarrow> nat option \<Rightarrow> Vector2" where
  "fromBufferAttribute2 a v =
     (case v of
        None \<Rightarrow> Vector2 NaN NaN
      | Some i \<Rightarrow> Vector2 (getComponent a i 0) (getComponent a i 1))"

definition setXYZ :: "BufferAttribute \<Rightarrow> nat option \<Rightarrow> number \<Rightarrow> number \<Rightarrow> number \<Rightarrow> BufferAttribute" where
  "setXYZ a v x y z =
     (case v of
        None \<Rightarrow> a
      | Some i \<Rightarrow>
          a\<lparr>array := setCell (setCell (setCell (array a) (vertexBase a i) x)
                          (vertexBase a i + 1) y) (vertexBase a i + 2) z\<rparr>)"

definition setXYZW ::
  "BufferAttribute \<Rightarrow> nat option \<Rightarrow> number \<Rightarrow> number \<Rightarrow> number \<Rightarrow> number \<Rightarrow> BufferAttribute" where
  "setXYZW a v x y z w =
     (case v of
        None \<Rightarrow> a
      | Some i \<Rightarrow>
          a\<lparr>array := setCell (setCell (setCell (setCell (array a) (vertexBase a i) x)
                          (vertexBase a i + 1) y) (vertexBase a i + 2) z)
                          (vertexBase a i + 3) w\<rparr>)"

text \<open>\<^verbatim>\<open>box.setFromBufferAttribute(attribute)\<close>: empty the box, then expand it by every vertex.\<close>

definition setFromBufferAttribute :: "BufferAttribute \<Rightarrow> Box3" where
  "setFromBufferAttribute a =
     fold (\<lambda>i b. expandByPoint b (fromBufferAttribute a (Some i))) [0..<attr_count a] makeEmpty"

section \<open>The geometry\<close>

text \<open>
  The index buffer has item width 1 and holds vertex indices: it is the list of its
  values. \<^verbatim>\<open>index.getX(j)\<close> is \<^verbatim>\<open>undefined\<close> past its end. A draw group is a triple of
  integers. The identity and metadata fields (\<^verbatim>\<open>id\<close>, \<^verbatim>\<open>uuid\<close>, \<^verbatim>\<open>name\<close>, \<^verbatim>\<open>type\<close>,
  \<^verbatim>\<open>indirect\<close>, \<^verbatim>\<open>userData\<close>) are read and written by none of the operations below and
  are left out.
\<close>

record DrawGroup =
  start :: nat
  count :: nat
  materialIndex :: nat

record DrawRange =
  range_start :: number
  range_count :: number

datatype message = Error string | Warn string

datatype error = TypeError

record BufferGeometry =
  index :: "nat list option"
  attributes :: "string \<rightharpoonup> BufferAttribute"
  morphAttributes :: "string \<rightharpoonup> BufferAttribute list"
  morphTargetsRelative :: bool
  groups :: "DrawGroup list"
  boundingBox :: "Box3 option"
  boundingSphere :: "Sphere option"
  drawRange :: DrawRange

definition BufferGeometry_new :: BufferGeometry where
  "BufferGeometry_new =
     \<lparr>index = None, attributes = Map.empty, morphAttributes = Map.empty,
      morphTargetsRelative = False, groups = [], boundingBox = None, boundingSphere = None,
      drawRange = \<lparr>range_start = Fin 0, range_count = PInf\<rparr>\<rparr>"

text \<open>A geometry all of whose attributes and morph targets satisfy the invariant.\<close>

definition wellFormedGeometry :: "BufferGeometry \<Rightarrow> bool" where
  "wellFormedGeometry g \<longleftrightarrow>
     (\<forall>a\<in>ran (attributes g). wellFormed a)
     \<and> (\<forall>ms\<in>ran (morphAttributes g). \<forall>m\<in>set ms. wellFormed m)"

definition index_getX :: "nat list \<Rightarrow> nat \<Rightarrow> nat option" where
  "index_getX ix j = (if j < length ix then Some (ix ! j) else None)"

text \<open>
  \<^verbatim>\<open>setIndex\<close> of a plain array stores it in a \<^verbatim>\<open>Uint16\<close> or \<^verbatim>\<open>Uint32\<close> buffer, the wide one
  when a value needs it: the stored values are the given ones modulo \<open>2^32\<close>.
\<close>

definition setIndex :: "nat list \<Rightarrow> BufferGeometry \<Rightarrow> BufferGeometry" where
  "setIndex ix g = g\<lparr>index := Some (map (\<lambda>v. v mod 2 ^ 32) ix)\<rparr>"

definition setAttribute :: "string \<Rightarrow> BufferAttribute \<Rightarrow> BufferGeometry \<Rightarrow> BufferGeometry" where
  "setAttribute nm a g = g\<lparr>attributes := (attributes g)(nm \<mapsto> a)\<rparr>"

definition hasAttribute :: "BufferGeometry \<Rightarrow> string \<Rightarrow> bool" where
  "hasAttribute g nm \<longleftrightarrow> attributes g nm \<noteq> None"

definition addGroup :: "nat \<Rightarrow> nat \<Rightarrow> nat \<Rightarrow> BufferGeometry \<Rightarrow> BufferGeometry" where
  "addGroup s c m g = g\<lparr>groups := groups g @ [\<lparr>start = s, count = c, materialIndex = m\<rparr>]\<rparr>"

definition setDrawRange :: "number \<Rightarrow> number \<Rightarrow> BufferGeometry \<Rightarrow> BufferGeometry" where
  "setDrawRange s c g = g\<lparr>drawRange := \<lparr>range_start = s, range_count = c\<rparr>\<rparr>"

section \<open>Bounding volumes\<close>

text \<open>
  One round of the morph-target loop of \<^verbatim>\<open>computeBoundingBox\<close> and of
  \<^verbatim>\<open>computeBoundingSphere\<close> (the two methods repeat the same statements): the box \<open>b\<close>
  is expanded with the box \<open>mb\<close> fitted to one morph target. In relative mode the second
  sum reads the maximum corner after the first expansion.
\<close>

definition expandByMorphTarget :: "bool \<Rightarrow> Box3 \<Rightarrow> Box3 \<Rightarrow> Box3" where
  "expandByMorphTarget rel b mb =
     (if rel then
        (let b1 = expandByPoint b (addVectors (box_min b) (box_min mb))
         in expandByPoint b1 (addVectors (box_max b1) (box_max mb)))
      else expandByPoint (expandByPoint b (box_min mb)) (box_max mb))"

definition fitPositionBox :: "BufferAttribute \<Rightarrow> BufferAttribute list option \<Rightarrow> bool \<Rightarrow> Box3" where
  "fitPositionBox p morph rel =
     (let b0 = setFromBufferAttribute p
      in case morph of
           None \<Rightarrow> b0
         | Some ms \<Rightarrow> fold (\<lambda>m b. expandByMorphTarget rel b (setFromBufferAttribute m)) ms b0)"

text \<open>The messages of the two methods (the second without the quotes around "position").\<close>

definition glBoxError :: message where
  "glBoxError =
     Error ''THREE.BufferGeometry.computeBoundingBox(): GLBufferAttribute requires a manual bounding box.''"

definition nanBoxError :: message where
  "nanBoxError =
     Error ''THREE.BufferGeometry.computeBoundingBox(): Computed min/max have NaN values. The position attribute is likely to have NaN values.''"

definition glSphereError :: message where
  "glSphereError =
     Error ''THREE.BufferGeometry.computeBoundingSphere(): GLBufferAttribute requires a manual bounding sphere.''"

definition nanSphereError :: message where
  "nanSphereError =
     Error ''THREE.BufferGeometry.computeBoundingSphere(): Computed radius is NaN. The position attribute is likely to have NaN values.''"

definition boxHasNaN :: "Box3 \<Rightarrow> bool" where
  "boxHasNaN b \<longleftrightarrow> isNaN (vx (box_min b)) \<or> isNaN (vy (box_min b)) \<or> isNaN (vz (box_min b))"

definition computeBoundingBox :: "BufferGeometry \<Rightarrow> BufferGeometry \<times> message list" where
  "computeBoundingBox g =
     (let position = attributes g ''position'';
          morphAttributesPosition = morphAttributes g ''position'';
          finish = (\<lambda>b. (g\<lparr>boundingBox := Some b\<rparr>,
                          if boxHasNaN b then [nanBoxError] else []))
      in case position of
           Some p \<Rightarrow>
             if isGLBufferAttribute p then
               (g\<lparr>boundingBox := Some \<lparr>box_min = Vector3 NInf NInf NInf,
                                        box_max = Vector3 PInf PInf PInf\<rparr>\<rparr>,
                [glBoxError])
             else finish (fitPositionBox p morphAttributesPosition (morphTargetsRelative g))
         | None \<Rightarrow> finish makeEmpty)"

text \<open>
  The vertex \<open>j\<close> of a morph target as the second pass of \<^verbatim>\<open>computeBoundingSphere\<close> reads
  it: in relative mode the base position \<open>j\<close> is added.
\<close>

definition morphVertex :: "bool \<Rightarrow> BufferAttribute \<Rightarrow> BufferAttribute \<Rightarrow> nat \<Rightarrow> Vector3" where
  "morphVertex rel p m j =
     (let v = fromBufferAttribute m (Some j)
      in if rel then addVectors v (fromBufferAttribute p (Some j)) else v)"

definition maxRadiusSq :: "Vector3 \<Rightarrow> BufferAttribute \<Rightarrow> BufferAttribute list option \<Rightarrow> bool \<Rightarrow> number" where
  "maxRadiusSq c p morph rel =
     (let m1 = fold (\<lambda>i m. Math_max m (distanceToSquared c (fromBufferAttribute p (Some i))))
                 [0..<attr_count p] (Fin 0)
      in case morph of
           None \<Rightarrow> m1
         | Some ms \<Rightarrow>
             fold (\<lambda>ma m. fold (\<lambda>j m'. Math_max m' (distanceToSquared c (morphVertex rel p ma j)))
                             [0..<attr_count ma] m) ms m1)"

definition computeBoundingSphere :: "BufferGeometry \<Rightarrow> BufferGeometry \<times> message list" where
  "computeBoundingSphere g =
     (let s = (case boundingSphere g of None \<Rightarrow> Sphere_new | Some s' \<Rightarrow> s');
          position = attributes g ''position'';
          morphAttributesPosition = morphAttributes g ''position''
      in case position of
           Some p \<Rightarrow>
             if isGLBufferAttribute p then
               (g\<lparr>boundingSphere := Some \<lparr>center = Vector3 (Fin 0) (Fin 0) (Fin 0), radius = PInf\<rparr>\<rparr>,
                [glSphereError])
             else
               (let c = getCenter (fitPositionBox p morphAttributesPosition (morphTargetsRelative g));
                    r = Math_sqrt (maxRadiusSq c p morphAttributesPosition (morphTargetsRelative g))
                in (g\<lparr>boundingSphere := Some \<lparr>center = c, radius = r\<rparr>\<rparr>,
                    if isNaN r then [nanSphereError] else []))
         | None \<Rightarrow> (g\<lparr>boundingSphere := Some s\<rparr>, []))"

section \<open>What the bounding volumes are measured against\<close>

text \<open>
  A point lies in a box when it lies between the corners on every axis (\<^verbatim>\<open><=\<close> of the
  numbers, so never when a \<open>NaN\<close> is involved). A vector, an attribute or a box is finite
  when every component read from it is a finite number. \<open>sphereVertices\<close> lists what
  the second pass of \<^verbatim>\<open>computeBoundingSphere\<close> measures: every position vertex, then every
  vertex of every morph target, with the base position added in relative mode.
\<close>

definition containsPoint :: "Box3 \<Rightarrow> Vector3 \<Rightarrow> bool" where
  "containsPoint b v \<longleftrightarrow>
     num_le (vx (box_min b)) (vx v) \<and> num_le (vx v) (vx (box_max b))
     \<and> num_le (vy (box_min b)) (vy v) \<and> num_le (vy v) (vy (box_max b))
     \<and> num_le (vz (box_min b)) (vz v) \<and> num_le (vz v) (vz (box_max b))"

definition finiteVector :: "Vector3 \<Rightarrow> bool" where
  "finiteVector v \<longleftrightarrow> isFinite (vx v) \<and> isFinite (vy v) \<and> isFinite (vz v)"

definition finiteAttribute :: "BufferAttribute \<Rightarrow> bool" where
  "finiteAttribute a \<longleftrightarrow> (\<forall>i<attr_count a. finiteVector (fromBufferAttribute a (Some i)))"

definition finiteBox :: "Box3 \<Rightarrow> bool" where
  "finiteBox b \<longleftrightarrow> finiteVector (box_min b) \<and> finiteVector (box_max b)"

definition finitePositions :: "BufferGeometry \<Rightarrow> bool" where
  "finitePositions g \<longleftrightarrow>
     (\<forall>p. attributes g ''position'' = Some p \<longrightarrow> finiteAttribute p)
     \<and> (\<forall>ms. morphAttributes g ''position'' = Some ms \<longrightarrow> (\<forall>m\<in>set ms. finiteAttribute m))"

definition morphTargetsNonEmpty :: "BufferGeometry \<Rightarrow> bool" where
  "morphTargetsNonEmpty g \<longleftrightarrow>
     (\<forall>ms. morphAttributes g ''position'' = Some ms \<longrightarrow> (\<forall>m\<in>set ms. 0 < attr_count m))"

definition distanceTo :: "Vector3 \<Rightarrow> Vector3 \<Rightarrow> number" where
  "distanceTo a b = Math_sqrt (distanceToSquared a b)"

definition sphereVertices :: "BufferAttribute \<Rightarrow> BufferAttribute list option \<Rightarrow> bool \<Rightarrow> Vector3 list" where
  "sphereVertices p morph rel =
     map (\<lambda>i. fromBufferAttribute p (Some i)) [0..<attr_count p]
     @ (case morph of
          None \<Rightarrow> []
        | Some ms \<Rightarrow> concat (map (\<lambda>m. map (morphVertex rel p m) [0..<attr_count m]) ms))"

definition morphTargetsWithinBase :: "BufferGeometry \<Rightarrow> bool" where
  "morphTargetsWithinBase g \<longleftrightarrow>
     (\<forall>p ms. attributes g ''position'' = Some p \<longrightarrow> morphAttributes g ''position'' = Some ms \<longrightarrow>
        (\<forall>m\<in>set ms. attr_count m \<le> attr_count p))"

definition noNaNVector :: "Vector3 \<Rightarrow> bool" where
  "noNaNVector v \<longleftrightarrow> \<not> isNaN (vx v) \<and> \<not> isNaN (vy v) \<and> \<not> isNaN (vz v)"

definition noNaNBox :: "Box3 \<Rightarrow> bool" where
  "noNaNBox b \<longleftrightarrow> noNaNVector (box_min b) \<and> noNaNVector (box_max b)"

section \<open>Transformation\<close>

text \<open>
  \<^verbatim>\<open>applyMatrix4\<close> hands the matrix to three methods of the attribute class
  (\<^verbatim>\<open>applyMatrix4\<close>, \<^verbatim>\<open>applyNormalMatrix\<close> with the normal matrix of the transform, and
  \<^verbatim>\<open>transformDirection\<close>), which are not part of the source: they are parameters here,
  and so is the matrix type.
\<close>

definition transformAttribute ::
  "('m \<Rightarrow> BufferAttribute \<Rightarrow> BufferAttribute) \<Rightarrow> 'm \<Rightarrow> string \<Rightarrow> BufferGeometry \<Rightarrow> BufferGeometry" where
  "transformAttribute f matrix nm g =
     (case attributes g nm of
        None \<Rightarrow> g
      | Some a \<Rightarrow> setAttribute nm ((f matrix a)\<lparr>needsUpdate := True\<rparr>) g)"

definition transformAttributes ::
  "('m \<Rightarrow> BufferAttribute \<Rightarrow> BufferAttribute) \<Rightarrow> ('m \<Rightarrow> BufferAttribute \<Rightarrow> BufferAttribute) \<Rightarrow>
   ('m \<Rightarrow> BufferAttribute \<Rightarrow> BufferAttribute) \<Rightarrow> 'm \<Rightarrow> BufferGeometry \<Rightarrow> BufferGeometry" where
  "transformAttributes attr_applyMatrix4 attr_applyNormalMatrix attr_transformDirection matrix g =
     (let g1 = transformAttribute attr_applyMatrix4 matrix ''position'' g;
          g2 = transformAttribute attr_applyNormalMatrix matrix ''normal'' g1
      in transformAttribute attr_transformDirection matrix ''tangent'' g2)"

definition applyMatrix4 ::
  "('m \<Rightarrow> BufferAttribute \<Rightarrow> BufferAttribute) \<Rightarrow> ('m \<Rightarrow> BufferAttribute \<Rightarrow> BufferAttribute) \<Rightarrow>
   ('m \<Rightarrow> BufferAttribute \<Rightarrow> BufferAttribute) \<Rightarrow> 'm \<Rightarrow> BufferGeometry \<Rightarrow>
   BufferGeometry \<times> message list" where
  "applyMatrix4 attr_applyMatrix4 attr_applyNormalMatrix attr_transformDirection matrix g =
     (let g3 = transformAttributes attr_applyMatrix4 attr_applyNormalMatrix attr_transformDirection
                 matrix g;
          r1 = (if boundingBox g3 \<noteq> None then computeBoundingBox g3 else (g3, []));
          r2 = (if boundingSphere (fst r1) \<noteq> None then computeBoundingSphere (fst r1)
                else (fst r1, []))
      in (fst r2, snd r1 @ snd r2))"

section \<open>Vertex normals\<close>

text \<open>The values of a loop counter that starts at \<open>s\<close>, stops before \<open>e\<close> and steps by 3.\<close>

definition upto3 :: "nat \<Rightarrow> nat \<Rightarrow> nat list" where
  "upto3 s e = map (\<lambda>k. s + 3 * k) [0..<(e - s + 2) div 3]"

definition faceNormal :: "Vector3 \<Rightarrow> Vector3 \<Rightarrow> Vector3 \<Rightarrow> Vector3" where
  "faceNormal pA pB pC = crossVectors (subVectors pC pB) (subVectors pA pB)"

definition zeroNormals :: "BufferAttribute \<Rightarrow> BufferAttribute" where
  "zeroNormals n = fold (\<lambda>i a. setXYZ a (Some i) (Fin 0) (Fin 0) (Fin 0)) [0..<attr_count n] n"

text \<open>One triangle of an indexed geometry: the three normals are read before any is written.\<close>

definition indexedNormalStep :: "BufferAttribute \<Rightarrow> nat list \<Rightarrow> nat \<Rightarrow> BufferAttribute \<Rightarrow> BufferAttribute" where
  "indexedNormalStep p ix i n =
     (let vA = index_getX ix (i + 0); vB = index_getX ix (i + 1); vC = index_getX ix (i + 2);
          cb = faceNormal (fromBufferAttribute p vA) (fromBufferAttribute p vB)
                 (fromBufferAttribute p vC);
          nA = addVectors (fromBufferAttribute n vA) cb;
          nB = addVectors (fromBufferAttribute n vB) cb;
          nC = addVectors (fromBufferAttribute n vC) cb
      in setXYZ (setXYZ (setXYZ n vA (vx nA) (vy nA) (vz nA)) vB (vx nB) (vy nB) (vz nB))
           vC (vx nC) (vy nC) (vz nC))"

definition nonIndexedNormalStep :: "BufferAttribute \<Rightarrow> nat \<Rightarrow> BufferAttribute \<Rightarrow> BufferAttribute" where
  "nonIndexedNormalStep p i n =
     (let cb = faceNormal (fromBufferAttribute p (Some (i + 0))) (fromBufferAttribute p (Some (i + 1)))
                 (fromBufferAttribute p (Some (i + 2)))
      in setXYZ (setXYZ (setXYZ n (Some (i + 0)) (vx cb) (vy cb) (vz cb))
                   (Some (i + 1)) (vx cb) (vy cb) (vz cb))
           (Some (i + 2)) (vx cb) (vy cb) (vz cb))"

definition normalizeNormals :: "BufferAttribute \<Rightarrow> BufferAttribute" where
  "normalizeNormals normals =
     fold (\<lambda>i a. (let v = normalize (fromBufferAttribute a (Some i))
                  in setXYZ a (Some i) (vx v) (vy v) (vz v)))
       [0..<attr_count normals] normals"

definition computeVertexNormals :: "BufferGeometry \<Rightarrow> BufferGeometry \<times> message list" where
  "computeVertexNormals g =
     (case attributes g ''position'' of
        None \<Rightarrow> (g, [])
      | Some positionAttribute \<Rightarrow>
          (let n0 = (case attributes g ''normal'' of
                       None \<Rightarrow> BufferAttribute_new (Float32Array (attr_count positionAttribute * 3)) 3 False
                     | Some normalAttribute \<Rightarrow> zeroNormals normalAttribute);
               n1 = (case index g of
                       Some ix \<Rightarrow> fold (indexedNormalStep positionAttribute ix) (upto3 0 (length ix)) n0
                     | None \<Rightarrow>
                         fold (nonIndexedNormalStep positionAttribute)
                           (upto3 0 (attr_count positionAttribute)) n0);
               n2 = normalizeNormals n1
           in (setAttribute ''normal'' (n2\<lparr>needsUpdate := True\<rparr>) g, [])))"

text \<open>
  The cells the reset loop of \<^verbatim>\<open>computeVertexNormals\<close> addresses in its first \<open>m\<close>
  rounds: the first three cells of each of the first \<open>m\<close> vertices.
\<close>

definition xyzCell :: "BufferAttribute \<Rightarrow> nat \<Rightarrow> nat \<Rightarrow> bool" where
  "xyzCell a m d \<longleftrightarrow> (\<exists>i<m. \<exists>k<3. d = vertexBase a i + k)"

text \<open>The two loops of \<^verbatim>\<open>computeVertexNormals\<close> after the reset, as one function of the normal attribute.\<close>

definition recomputeNormals :: "BufferAttribute \<Rightarrow> nat list option \<Rightarrow> BufferAttribute \<Rightarrow> BufferAttribute" where
  "recomputeNormals p ixo n0 =
     normalizeNormals
       (case ixo of
          Some ix \<Rightarrow> fold (indexedNormalStep p ix) (upto3 0 (length ix)) n0
        | None \<Rightarrow> fold (nonIndexedNormalStep p) (upto3 0 (attr_count p)) n0)"

section \<open>Tangents\<close>

text \<open>
  \<^verbatim>\<open>tan1\<close> and \<^verbatim>\<open>tan2\<close> are arrays of one vector per position vertex. Calling a method on
  an entry that does not exist (\<^verbatim>\<open>tan1[a].add(sdir)\<close> with \<open>a\<close> out of range or
  \<^verbatim>\<open>undefined\<close>) throws a \<^verbatim>\<open>TypeError\<close>.
\<close>

definition bind_err :: "error + 'a \<Rightarrow> ('a \<Rightarrow> error + 'b) \<Rightarrow> error + 'b" where
  "bind_err r f = (case r of Inl e \<Rightarrow> Inl e | Inr v \<Rightarrow> f v)"

fun foldE :: "('a \<Rightarrow> 's \<Rightarrow> error + 's) \<Rightarrow> 'a list \<Rightarrow> 's \<Rightarrow> error + 's" where
  "foldE f [] s = Inr s"
| "foldE f (x # xs) s = (case f x s of Inl e \<Rightarrow> Inl e | Inr s' \<Rightarrow> foldE f xs s')"

definition addAt :: "Vector3 list \<Rightarrow> nat option \<Rightarrow> Vector3 \<Rightarrow> error + Vector3 list" where
  "addAt t v d =
     (case v of
        None \<Rightarrow> Inl TypeError
      | Some i \<Rightarrow> if i < length t then Inr (t[i := addVectors (t ! i) d]) else Inl TypeError)"

text \<open>The scale factor \<open>r\<close> of a triangle, from the UV deltas of its corners \<open>b\<close> and \<open>c\<close>.\<close>

definition tangentScale :: "BufferAttribute \<Rightarrow> nat option \<Rightarrow> nat option \<Rightarrow> nat option \<Rightarrow> number" where
  "tangentScale uvAttribute a b c =
     (let uvA = fromBufferAttribute2 uvAttribute a;
          uvB = subVectors2 (fromBufferAttribute2 uvAttribute b) uvA;
          uvC = subVectors2 (fromBufferAttribute2 uvAttribute c) uvA
      in num_div (Fin 1) (num_sub (num_mul (ux uvB) (uy uvC)) (num_mul (ux uvC) (uy uvB))))"

definition handleTriangle ::
  "BufferAttribute \<Rightarrow> BufferAttribute \<Rightarrow> nat option \<Rightarrow> nat option \<Rightarrow> nat option \<Rightarrow>
   Vector3 list \<times> Vector3 list \<Rightarrow> error + Vector3 list \<times> Vector3 list" where
  "handleTriangle positionAttribute uvAttribute a b c tans =
     (let vA = fromBufferAttribute positionAttribute a;
          vB = subVectors (fromBufferAttribute positionAttribute b) vA;
          vC = subVectors (fromBufferAttribute positionAttribute c) vA;
          uvA = fromBufferAttribute2 uvAttribute a;
          uvB = subVectors2 (fromBufferAttribute2 uvAttribute b) uvA;
          uvC = subVectors2 (fromBufferAttribute2 uvAttribute c) uvA;
          r = tangentScale uvAttribute a b c
      in if \<not> isFinite r then Inr tans
         else
           (let sdir = multiplyScalar
                         (addScaledVector (multiplyScalar vB (uy uvC)) vC (num_neg (uy uvB))) r;
                tdir = multiplyScalar
                         (addScaledVector (multiplyScalar vC (ux uvB)) vB (num_neg (ux uvC))) r
            in bind_err (addAt (fst tans) a sdir) (\<lambda>t1a.
               bind_err (addAt t1a b sdir) (\<lambda>t1b.
               bind_err (addAt t1b c sdir) (\<lambda>t1c.
               bind_err (addAt (snd tans) a tdir) (\<lambda>t2a.
               bind_err (addAt t2a b tdir) (\<lambda>t2b.
               bind_err (addAt t2b c tdir) (\<lambda>t2c. Inr (t1c, t2c)))))))))"

text \<open>
  The triangles a list of groups ranges over: each group's counter runs from its start
  to its start plus its count in steps of 3.
\<close>

definition groupTriangles :: "DrawGroup list \<Rightarrow> nat list" where
  "groupTriangles gs = concat (map (\<lambda>gr. upto3 (start gr) (start gr + count gr)) gs)"

definition handleTriangles ::
  "BufferAttribute \<Rightarrow> BufferAttribute \<Rightarrow> nat list \<Rightarrow> nat list \<Rightarrow>
   Vector3 list \<times> Vector3 list \<Rightarrow> error + Vector3 list \<times> Vector3 list" where
  "handleTriangles positionAttribute uvAttribute ix js tans =
     foldE (\<lambda>j. handleTriangle positionAttribute uvAttribute
                  (index_getX ix (j + 0)) (index_getX ix (j + 1)) (index_getX ix (j + 2)))
       js tans"

definition handleVertex ::
  "BufferAttribute \<Rightarrow> Vector3 list \<Rightarrow> Vector3 list \<Rightarrow> nat option \<Rightarrow> BufferAttribute \<Rightarrow>
   error + BufferAttribute" where
  "handleVertex normalAttribute tan1 tan2 v tangentAttribute =
     (case v of
        None \<Rightarrow> Inl TypeError
      | Some i \<Rightarrow>
          if \<not> i < length tan1 then Inl TypeError
          else
            (let n = fromBufferAttribute normalAttribute v;
                 n2 = n;
                 t = tan1 ! i;
                 tmp = normalize (subVectors t (multiplyScalar n (dot n t)));
                 tmp2 = crossVectors n2 t;
                 test = dot tmp2 (tan2 ! i);
                 w = (if num_lt test (Fin 0) then Fin (- 1) else Fin 1)
             in Inr (setXYZW tangentAttribute v (vx tmp) (vy tmp) (vz tmp) w)))"

definition handleVertices ::
  "BufferAttribute \<Rightarrow> Vector3 list \<Rightarrow> Vector3 list \<Rightarrow> nat list \<Rightarrow> nat list \<Rightarrow> BufferAttribute \<Rightarrow>
   error + BufferAttribute" where
  "handleVertices normalAttribute tan1 tan2 ix js tangentAttribute =
     foldE (\<lambda>j ta.
              bind_err (handleVertex normalAttribute tan1 tan2 (index_getX ix (j + 0)) ta) (\<lambda>ta1.
              bind_err (handleVertex normalAttribute tan1 tan2 (index_getX ix (j + 1)) ta1) (\<lambda>ta2.
              handleVertex normalAttribute tan1 tan2 (index_getX ix (j + 2)) ta2)))
       js tangentAttribute"

definition missingAttributes :: message where
  "missingAttributes =
     Error ''THREE.BufferGeometry: .computeTangents() failed. Missing required attributes (index, position, normal or uv)''"

definition computeTangents :: "BufferGeometry \<Rightarrow> error + BufferGeometry \<times> message list" where
  "computeTangents g =
     (case (index g, attributes g ''position'', attributes g ''normal'', attributes g ''uv'') of
        (Some ix, Some positionAttribute, Some normalAttribute, Some uvAttribute) \<Rightarrow>
          (let tangentAttribute =
                 (case attributes g ''tangent'' of
                    None \<Rightarrow> BufferAttribute_new (Float32Array (4 * attr_count positionAttribute)) 4 False
                  | Some ta \<Rightarrow> ta);
               tan0 = replicate (attr_count positionAttribute) (Vector3 (Fin 0) (Fin 0) (Fin 0));
               gs = (if length (groups g) = 0
                     then [\<lparr>start = 0, count = length ix, materialIndex = 0\<rparr>]
                     else groups g);
               js = groupTriangles gs
           in bind_err (handleTriangles positionAttribute uvAttribute ix js (tan0, tan0)) (\<lambda>tans.
              bind_err (handleVertices normalAttribute (fst tans) (snd tans) ix js tangentAttribute)
                (\<lambda>ta. Inr (setAttribute ''tangent'' ta g, []))))
      | _ \<Rightarrow> Inr (g, [missingAttributes]))"

section \<open>Conversion to a non-indexed geometry\<close>

text \<open>
  \<^verbatim>\<open>convertBufferAttribute\<close>: a new array of \<^verbatim>\<open>indices.length * itemSize\<close> cells is filled
  by two nested loops. The state of the inner loop is the new array and the two running
  positions \<^verbatim>\<open>index\<close> (in the source array) and \<^verbatim>\<open>index2\<close> (in the new array); each round
  copies one cell and advances both. The outer loop sets \<^verbatim>\<open>index\<close> to the position of
  the vertex the next index entry names, by the stride and offset of an interleaved
  attribute or by the item width of a plain one.
\<close>

definition copyCell :: "number list \<Rightarrow> nat \<Rightarrow> number list \<times> nat \<times> nat \<Rightarrow> number list \<times> nat \<times> nat" where
  "copyCell arr j st =
     (let array2 = fst st; idx = fst (snd st); index2 = snd (snd st)
      in (setCell array2 index2 (getCell arr idx), idx + 1, index2 + 1))"

definition convertBufferAttribute :: "BufferAttribute \<Rightarrow> nat list \<Rightarrow> BufferAttribute" where
  "convertBufferAttribute a indices =
     (let arr = array a; n = itemSize a;
          array2 = Float32Array (length indices * n);
          st = fold (\<lambda>i st. fold (copyCell arr) [0..<n]
                                 (fst st, vertexBase a (indices ! i), snd (snd st)))
                 [0..<length indices] (array2, 0, 0)
      in BufferAttribute_new (fst st) n (normalized a))"

definition notIndexedWarning :: message where
  "notIndexedWarning = Warn ''THREE.BufferGeometry.toNonIndexed(): BufferGeometry is already non-indexed.''"

definition toNonIndexed :: "BufferGeometry \<Rightarrow> BufferGeometry \<times> message list" where
  "toNonIndexed g =
     (case index g of
        None \<Rightarrow> (g, [notIndexedWarning])
      | Some indices \<Rightarrow>
          (let g1 = BufferGeometry_new
                      \<lparr>attributes := (\<lambda>nm. map_option (\<lambda>a. convertBufferAttribute a indices)
                                              (attributes g nm)),
                       morphAttributes := (\<lambda>nm. map_option (map (\<lambda>a. convertBufferAttribute a indices))
                                                   (morphAttributes g nm)),
                       morphTargetsRelative := morphTargetsRelative g\<rparr>;
               geometry2 = fold (\<lambda>gr. addGroup (start gr) (count gr) (materialIndex gr)) (groups g) g1
           in (geometry2, [])))"

text \<open>
  What the conversion promises of an attribute \<open>a2\<close> made from \<open>a\<close> along the index
  values \<open>ix\<close>: the item width of \<open>a\<close>, one vertex per index entry, and at vertex \<open>i\<close>
  the components \<open>a\<close> has at vertex \<open>ix ! i\<close>.
\<close>

definition expandedFrom :: "BufferAttribute \<Rightarrow> nat list \<Rightarrow> BufferAttribute \<Rightarrow> bool" where
  "expandedFrom a ix a2 \<longleftrightarrow>
     itemSize a2 = itemSize a
     \<and> (0 < itemSize a \<longrightarrow> attr_count a2 = length ix)
     \<and> (\<forall>i<length ix. \<forall>j<itemSize a. getComponent a2 i j = getComponent a (ix ! i) j)"

section \<open>The box builder\<close>

text \<open>
  \<^verbatim>\<open>BoxGeometry\<close> fills four arrays and the group list of the geometry under construction
  through six calls of \<^verbatim>\<open>buildPlane\<close>, which share the counters \<^verbatim>\<open>numberOfVertices\<close> and
  \<^verbatim>\<open>groupStart\<close>. The segment counts are whole numbers (\<^verbatim>\<open>Math.floor\<close> leaves them as
  they are); the axis names \<^verbatim>\<open>"x"\<close>, \<^verbatim>\<open>"y"\<close>, \<^verbatim>\<open>"z"\<close> select a component of the scratch
  vector.
\<close>

datatype axis = AxisX | AxisY | AxisZ

fun setAxis :: "Vector3 \<Rightarrow> axis \<Rightarrow> number \<Rightarrow> Vector3" where
  "setAxis (Vector3 a b c) AxisX n = Vector3 n b c"
| "setAxis (Vector3 a b c) AxisY n = Vector3 a n c"
| "setAxis (Vector3 a b c) AxisZ n = Vector3 a b n"

record builder =
  indices :: "nat list"
  vertices :: "number list"
  normals :: "number list"
  uvs :: "number list"
  numberOfVertices :: nat
  groupStart :: nat
  scope :: BufferGeometry

text \<open>
  One round of the inner vertex loop, on the scratch vector, the three arrays and
  \<^verbatim>\<open>vertexCounter\<close>.
\<close>

definition planeVertex ::
  "axis \<Rightarrow> axis \<Rightarrow> axis \<Rightarrow> number \<Rightarrow> number \<Rightarrow> number \<Rightarrow> number \<Rightarrow> number \<Rightarrow> nat \<Rightarrow> nat \<Rightarrow>
   nat \<Rightarrow> nat \<Rightarrow> Vector3 \<times> builder \<times> nat \<Rightarrow> Vector3 \<times> builder \<times> nat" where
  "planeVertex u v w udir vdir wdt hgt depth gridX gridY iy ix st =
     (let vector = fst st; b = fst (snd st); vertexCounter = snd (snd st);
          segmentWidth = num_div wdt (Fin (real gridX));
          segmentHeight = num_div hgt (Fin (real gridY));
          widthHalf = num_div wdt (Fin 2);
          heightHalf = num_div hgt (Fin 2);
          depthHalf = num_div depth (Fin 2);
          y = num_sub (num_mul (Fin (real iy)) segmentHeight) heightHalf;
          x = num_sub (num_mul (Fin (real ix)) segmentWidth) widthHalf;
          vector1 = setAxis (setAxis (setAxis vector u (num_mul x udir)) v (num_mul y vdir)) w depthHalf;
          vertices' = vertices b @ [vx vector1, vy vector1, vz vector1];
          vector2 = setAxis (setAxis (setAxis vector1 u (Fin 0)) v (Fin 0)) w
                      (if num_lt (Fin 0) depth then Fin 1 else Fin (- 1));
          normals' = normals b @ [vx vector2, vy vector2, vz vector2];
          uvs' = uvs b @ [num_div (Fin (real ix)) (Fin (real gridX)),
                          num_sub (Fin 1) (num_div (Fin (real iy)) (Fin (real gridY)))]
      in (vector2, b\<lparr>vertices := vertices', normals := normals', uvs := uvs'\<rparr>, vertexCounter + 1))"

text \<open>One round of the inner index loop, on the builder and \<^verbatim>\<open>groupCount\<close>.\<close>

definition planeFace :: "nat \<Rightarrow> nat \<Rightarrow> nat \<Rightarrow> builder \<times> nat \<Rightarrow> builder \<times> nat" where
  "planeFace gridX1 iy ix st =
     (let b = fst st; groupCount = snd st;
          ia = numberOfVertices b + ix + gridX1 * iy;
          ib = numberOfVertices b + ix + gridX1 * (iy + 1);
          ic = numberOfVertices b + (ix + 1) + gridX1 * (iy + 1);
          id = numberOfVertices b + (ix + 1) + gridX1 * iy
      in (b\<lparr>indices := indices b @ [ia, ib, id] @ [ib, ic, id]\<rparr>, groupCount + 6))"

definition buildPlane ::
  "axis \<Rightarrow> axis \<Rightarrow> axis \<Rightarrow> number \<Rightarrow> number \<Rightarrow> number \<Rightarrow> number \<Rightarrow> number \<Rightarrow> nat \<Rightarrow> nat \<Rightarrow>
   nat \<Rightarrow> builder \<Rightarrow> builder" where
  "buildPlane u v w udir vdir wdt hgt depth gridX gridY mi b =
     (let gridX1 = gridX + 1; gridY1 = gridY + 1;
          st1 = fold (\<lambda>iy st. fold (planeVertex u v w udir vdir wdt hgt depth gridX gridY iy)
                                [0..<gridX1] st)
                  [0..<gridY1] (Vector3 (Fin 0) (Fin 0) (Fin 0), b, 0);
          b1 = fst (snd st1); vertexCounter = snd (snd st1);
          st2 = fold (\<lambda>iy st. fold (planeFace gridX1 iy) [0..<gridX] st) [0..<gridY] (b1, 0);
          b2 = fst st2; groupCount = snd st2
      in b2\<lparr>scope := addGroup (groupStart b2) groupCount mi (scope b2),
             groupStart := groupStart b2 + groupCount,
             numberOfVertices := numberOfVertices b2 + vertexCounter\<rparr>)"

definition BoxGeometry ::
  "number \<Rightarrow> number \<Rightarrow> number \<Rightarrow> nat \<Rightarrow> nat \<Rightarrow> nat \<Rightarrow> BufferGeometry" where
  "BoxGeometry wdt hgt depth widthSegments heightSegments depthSegments =
     (let b0 = \<lparr>indices = [], vertices = [], normals = [], uvs = [], numberOfVertices = 0,
                groupStart = 0, scope = BufferGeometry_new\<rparr>;
          b1 = buildPlane AxisZ AxisY AxisX (Fin (- 1)) (Fin (- 1)) depth hgt wdt
                 depthSegments heightSegments 0 b0;
          b2 = buildPlane AxisZ AxisY AxisX (Fin 1) (Fin (- 1)) depth hgt (num_neg wdt)
                 depthSegments heightSegments 1 b1;
          b3 = buildPlane AxisX AxisZ AxisY (Fin 1) (Fin 1) wdt depth hgt
                 widthSegments depthSegments 2 b2;
          b4 = buildPlane AxisX AxisZ AxisY (Fin 1) (Fin (- 1)) wdt depth (num_neg hgt)
                 widthSegments depthSegments 3 b3;
          b5 = buildPlane AxisX AxisY AxisZ (Fin 1) (Fin (- 1)) wdt hgt depth
                 widthSegments heightSegments 4 b4;
          b6 = buildPlane AxisX AxisY AxisZ (Fin (- 1)) (Fin (- 1)) wdt hgt (num_neg depth)
                 widthSegments heightSegments 5 b5
      in setAttribute ''uv'' (BufferAttribute_new (uvs b6) 2 False)
           (setAttribute ''normal'' (BufferAttribute_new (normals b6) 3 False)
              (setAttribute ''position'' (BufferAttribute_new (vertices b6) 3 False)
                 (setIndex (indices b6) (scope b6)))))"

section \<open>Example geometries\<close>

text \<open>
  A single triangle in the plane \<open>z = 0\<close> with its index, normals and UVs; the same
  without UVs but with a tangent attribute; and the same with a cached bounding box and
  no bounding sphere.
\<close>

definition trianglePositions :: BufferAttribute where
  "trianglePositions =
     BufferAttribute_new [Fin 0, Fin 0, Fin 0, Fin 1, Fin 0, Fin 0, Fin 0, Fin 1, Fin 0] 3 False"

definition triangleNormals :: BufferAttribute where
  "triangleNormals =
     BufferAttribute_new [Fin 0, Fin 0, Fin 1, Fin 0, Fin 0, Fin 1, Fin 0, Fin 0, Fin 1] 3 False"

definition triangleUVs :: BufferAttribute where
  "triangleUVs = BufferAttribute_new [Fin 0, Fin 0, Fin 1, Fin 0, Fin 0, Fin 1] 2 False"

definition triangleTangents :: BufferAttribute where
  "triangleTangents =
     BufferAttribute_new
       [Fin 1, Fin 0, Fin 0, Fin 1, Fin 1, Fin 0, Fin 0, Fin 1, Fin 1, Fin 0, Fin 0, Fin 1] 4 False"

definition triangleGeometry :: BufferGeometry where
  "triangleGeometry =
     setAttribute ''uv'' triangleUVs
       (setAttribute ''normal'' triangleNormals
          (setAttribute ''position'' trianglePositions (setIndex [0, 1, 2] BufferGeometry_new)))"

definition noUVGeometry :: BufferGeometry where
  "noUVGeometry =
     setAttribute ''tangent'' triangleTangents
       (setAttribute ''normal'' triangleNormals
          (setAttribute ''position'' trianglePositions (setIndex [0, 1, 2] BufferGeometry_new)))"

definition noPositionGeometry :: BufferGeometry where
  "noPositionGeometry =
     addGroup 0 3 0 (setAttribute ''normal'' triangleNormals (setIndex [0, 1, 2] BufferGeometry_new))"

definition boxOnlyGeometry :: BufferGeometry where
  "boxOnlyGeometry = fst (computeBoundingBox triangleGeometry)"

definition keepAttribute :: "unit \<Rightarrow> BufferAttribute \<Rightarrow> BufferAttribute" where
  "keepAttribute m a = a"

text \<open>
  Four vertices on a line and a corner, with UVs in which the triangle (0, 1, 3) is
  collapsed and the triangle (0, 1, 2) is not.
\<close>

definition quadPositions :: BufferAttribute where
  "quadPositions =
     BufferAttribute_new [Fin 0, Fin 0, Fin 0, Fin 1, Fin 0, Fin 0, Fin 0, Fin 1, Fin 0,
                          Fin 2, Fin 0, Fin 0] 3 False"

definition quadUVs :: BufferAttribute where
  "quadUVs = BufferAttribute_new [Fin 0, Fin 0, Fin 1, Fin 0, Fin 0, Fin 1, Fin 1, Fin 0] 2 False"

text \<open>The four vertices as two triangles with the index 0, 1, 2, 2, 1, 3 and one group.\<close>

definition quadGeometry :: BufferGeometry where
  "quadGeometry =
     addGroup 0 6 0
       (setAttribute ''uv'' quadUVs
          (setAttribute ''position'' quadPositions (setIndex [0, 1, 2, 2, 1, 3] BufferGeometry_new)))"

text \<open>The triangle with its index and a normal attribute holding stale values.\<close>

definition staleNormals :: BufferAttribute where
  "staleNormals =
     BufferAttribute_new [Fin 5, Fin 0, Fin 0, Fin 0, NaN, Fin 0, Fin 1, Fin 1, Fin 1] 3 False"

definition staleGeometry :: BufferGeometry where
  "staleGeometry =
     setAttribute ''normal'' staleNormals
       (setAttribute ''position'' trianglePositions (setIndex [0, 1, 2] BufferGeometry_new))"

text \<open>
  The triangle with one relative morph target; and two vertices one of which has a \<open>NaN\<close>
  coordinate.
\<close>

definition morphDeltas :: BufferAttribute where
  "morphDeltas =
     BufferAttribute_new [Fin 0, Fin 0, Fin 1, Fin 0, Fin 0, Fin 2, Fin (- 1), Fin 0, Fin 0] 3 False"

definition morphGeometry :: BufferGeometry where
  "morphGeometry =
     (setAttribute ''position'' trianglePositions BufferGeometry_new)
       \<lparr>morphAttributes := [''position'' \<mapsto> [morphDeltas]], morphTargetsRelative := True\<rparr>"

definition nanPositions :: BufferAttribute where
  "nanPositions = BufferAttribute_new [Fin 0, Fin 0, Fin 0, NaN, Fin 0, Fin 0] 3 False"

definition nanGeometry :: BufferGeometry where
  "nanGeometry = setAttribute ''position'' nanPositions BufferGeometry_new"

section \<open>Missing attributes\<close>

text \<open>
  C9. On a geometry with no position attribute \<^verbatim>\<open>computeVertexNormals\<close> does nothing: the
  geometry it leaves is the one it was given (so no normal attribute is created and no
  field changes) and nothing is reported.
\<close>

theorem computeVertexNormals_no_position:
  assumes "attributes g ''position'' = None"
  shows "computeVertexNormals g = (g, [])"
  using assms by (simp add: computeVertexNormals_def)

theorem computeVertexNormals_no_position_witness:
  "attributes noPositionGeometry ''position'' = None
   \<and> computeVertexNormals noPositionGeometry = (noPositionGeometry, [])"
proof -
  have h: "attributes noPositionGeometry ''position'' = None"
    by (simp add: noPositionGeometry_def addGroup_def setAttribute_def setIndex_def
        BufferGeometry_new_def)
  show ?thesis using h computeVertexNormals_no_position [OF h] by simp
qed

text \<open>
  C4. On a geometry that lacks the index or one of the position, normal and uv attributes,
  \<^verbatim>\<open>computeTangents\<close> returns normally, reports the one error, and leaves the geometry as
  it was: no tangent attribute is created and no attribute changes.
\<close>

theorem computeTangents_missing:
  assumes "index g = None \<or> attributes g ''position'' = None \<or> attributes g ''normal'' = None
           \<or> attributes g ''uv'' = None"
  shows "computeTangents g = Inr (g, [missingAttributes])"
  using assms by (auto simp add: computeTangents_def split: option.splits)

theorem computeTangents_missing_witness:
  "attributes noUVGeometry ''uv'' = None
   \<and> attributes noUVGeometry ''tangent'' = Some triangleTangents
   \<and> computeTangents noUVGeometry = Inr (noUVGeometry, [missingAttributes])"
proof -
  have h: "attributes noUVGeometry ''uv'' = None"
    by (simp add: noUVGeometry_def setAttribute_def setIndex_def BufferGeometry_new_def)
  have t: "attributes noUVGeometry ''tangent'' = Some triangleTangents"
    by (simp add: noUVGeometry_def setAttribute_def)
  from h have "index noUVGeometry = None \<or> attributes noUVGeometry ''position'' = None
      \<or> attributes noUVGeometry ''normal'' = None \<or> attributes noUVGeometry ''uv'' = None"
    by simp
  from computeTangents_missing [OF this] h t show ?thesis by simp
qed

section \<open>The box scenario\<close>

text \<open>
  C8. The box of width 2, height 1 and depth 1 with one segment per edge has 24 position
  vertices, 36 index entries and six draw groups of count 6 with material indices 0 to 5.
  The six faces come in the order +x, -x, +y, -y, +z, -z: group \<open>k\<close> covers the index
  entries \<open>6k\<close> to \<open>6k + 5\<close>, which name the vertices \<open>4k\<close> to \<open>4k + 3\<close>, and the normals of
  these four vertices point along the \<open>k\<close>-th of the six directions.
\<close>

theorem BoxGeometry_2_1_1:
  "(let g = BoxGeometry (Fin 2) (Fin 1) (Fin 1) 1 1 1 in
      map_option attr_count (attributes g ''position'') = Some 24
    \<and> map_option length (index g) = Some 36
    \<and> index g = Some [0, 2, 1, 2, 3, 1,  4, 6, 5, 6, 7, 5,  8, 10, 9, 10, 11, 9,
                       12, 14, 13, 14, 15, 13,  16, 18, 17, 18, 19, 17,  20, 22, 21, 22, 23, 21]
    \<and> groups g =
         [\<lparr>start = 0, count = 6, materialIndex = 0\<rparr>, \<lparr>start = 6, count = 6, materialIndex = 1\<rparr>,
          \<lparr>start = 12, count = 6, materialIndex = 2\<rparr>, \<lparr>start = 18, count = 6, materialIndex = 3\<rparr>,
          \<lparr>start = 24, count = 6, materialIndex = 4\<rparr>, \<lparr>start = 30, count = 6, materialIndex = 5\<rparr>]
    \<and> map_option array (attributes g ''normal'') =
         Some ([Fin 1, Fin 0, Fin 0,  Fin 1, Fin 0, Fin 0,  Fin 1, Fin 0, Fin 0,  Fin 1, Fin 0, Fin 0]
             @ [Fin (- 1), Fin 0, Fin 0,  Fin (- 1), Fin 0, Fin 0,  Fin (- 1), Fin 0, Fin 0,
                Fin (- 1), Fin 0, Fin 0]
             @ [Fin 0, Fin 1, Fin 0,  Fin 0, Fin 1, Fin 0,  Fin 0, Fin 1, Fin 0,  Fin 0, Fin 1, Fin 0]
             @ [Fin 0, Fin (- 1), Fin 0,  Fin 0, Fin (- 1), Fin 0,  Fin 0, Fin (- 1), Fin 0,
                Fin 0, Fin (- 1), Fin 0]
             @ [Fin 0, Fin 0, Fin 1,  Fin 0, Fin 0, Fin 1,  Fin 0, Fin 0, Fin 1,  Fin 0, Fin 0, Fin 1]
             @ [Fin 0, Fin 0, Fin (- 1),  Fin 0, Fin 0, Fin (- 1),  Fin 0, Fin 0, Fin (- 1),
                Fin 0, Fin 0, Fin (- 1)]))"
  by (simp add: BoxGeometry_def buildPlane_def planeVertex_def planeFace_def Let_def upt_rec
      setAttribute_def setIndex_def addGroup_def BufferGeometry_new_def attr_count_def
      BufferAttribute_new_def)

section \<open>Cached bounding volumes under a transformation\<close>

lemma computeBoundingSphere_ignores_box:
  "boundingSphere (fst (computeBoundingSphere (g\<lparr>boundingBox := b\<rparr>)))
   = boundingSphere (fst (computeBoundingSphere g))"
  by (simp add: computeBoundingSphere_def Let_def split: option.splits)

lemma computeBoundingSphere_keeps_box:
  "boundingBox (fst (computeBoundingSphere g)) = boundingBox g"
  by (simp add: computeBoundingSphere_def Let_def split: option.splits)

lemma computeBoundingBox_keeps_sphere:
  "boundingSphere (fst (computeBoundingBox g)) = boundingSphere g"
  by (simp add: computeBoundingBox_def Let_def split: option.splits)

lemma computeBoundingBox_is_update:
  "fst (computeBoundingBox g) = g\<lparr>boundingBox := boundingBox (fst (computeBoundingBox g))\<rparr>"
  by (simp add: computeBoundingBox_def Let_def split: option.splits)

lemma transformAttributes_box: "boundingBox (transformAttributes f1 f2 f3 m g) = boundingBox g"
  by (simp add: transformAttributes_def transformAttribute_def setAttribute_def Let_def
      split: option.splits)

lemma transformAttributes_sphere:
  "boundingSphere (transformAttributes f1 f2 f3 m g) = boundingSphere g"
  by (simp add: transformAttributes_def transformAttribute_def setAttribute_def Let_def
      split: option.splits)

lemma applyMatrix4_volumes:
  "boundingBox (fst (applyMatrix4 f1 f2 f3 m g)) =
     (if boundingBox g = None then None
      else boundingBox (fst (computeBoundingBox (transformAttributes f1 f2 f3 m g))))
   \<and> boundingSphere (fst (applyMatrix4 f1 f2 f3 m g)) =
     (if boundingSphere g = None then None
      else boundingSphere (fst (computeBoundingSphere (transformAttributes f1 f2 f3 m g))))"
proof -
  let ?g3 = "transformAttributes f1 f2 f3 m g"
  have s: "boundingSphere (fst (computeBoundingSphere (fst (computeBoundingBox ?g3))))
      = boundingSphere (fst (computeBoundingSphere ?g3))"
    using computeBoundingBox_is_update [of ?g3]
      computeBoundingSphere_ignores_box [where g="?g3"] by metis
  show ?thesis
    by (simp add: applyMatrix4_def Let_def transformAttributes_box transformAttributes_sphere
        computeBoundingSphere_keeps_box computeBoundingBox_keeps_sphere s)
qed

text \<open>
  C3, as the claim states it, fails: a geometry whose bounding box was computed and whose
  bounding sphere was not keeps a null bounding sphere through \<^verbatim>\<open>applyMatrix4\<close> (here with
  transforms that leave the attributes as they are).
\<close>

theorem applyMatrix4_box_only_counterexample:
  "boundingBox boxOnlyGeometry \<noteq> None
   \<and> boundingSphere (fst (applyMatrix4 keepAttribute keepAttribute keepAttribute ()
        boxOnlyGeometry)) = None"
  by (simp add: applyMatrix4_volumes computeBoundingBox_keeps_sphere boxOnlyGeometry_def
      triangleGeometry_def setAttribute_def setIndex_def BufferGeometry_new_def
      computeBoundingBox_def Let_def trianglePositions_def BufferAttribute_new_def)

text \<open>
  C3, amended. After \<^verbatim>\<open>applyMatrix4\<close> each of the two cached volumes is decided on its own:
  a bounding box that was computed before is the box \<^verbatim>\<open>computeBoundingBox\<close> fits to the
  transformed attributes, and one that was null is still null; a bounding sphere that was
  computed before is the sphere \<^verbatim>\<open>computeBoundingSphere\<close> fits to the transformed
  attributes, and one that was null is still null. In particular, when neither was
  computed, both stay null.
\<close>

theorem applyMatrix4_recomputes_each:
  "boundingBox (fst (applyMatrix4 f1 f2 f3 m g)) =
     (if boundingBox g = None then None
      else boundingBox (fst (computeBoundingBox (transformAttributes f1 f2 f3 m g))))
   \<and> boundingSphere (fst (applyMatrix4 f1 f2 f3 m g)) =
     (if boundingSphere g = None then None
      else boundingSphere (fst (computeBoundingSphere (transformAttributes f1 f2 f3 m g))))"
  by (rule applyMatrix4_volumes)

section \<open>The draw range\<close>

text \<open>
  C10. Setting the draw range commutes with each derivation: run on the geometry with the
  new draw range, \<^verbatim>\<open>computeVertexNormals\<close>, \<^verbatim>\<open>computeTangents\<close>, \<^verbatim>\<open>computeBoundingBox\<close> and
  \<^verbatim>\<open>computeBoundingSphere\<close> give the result they give without it (the same attributes,
  bounding volumes, messages and exceptions), with the new draw range stored. None of
  them reads the draw range.
\<close>

theorem drawRange_not_read:
  "computeVertexNormals (setDrawRange s c g) = apfst (setDrawRange s c) (computeVertexNormals g)
   \<and> computeTangents (setDrawRange s c g)
       = map_sum id (apfst (setDrawRange s c)) (computeTangents g)
   \<and> computeBoundingBox (setDrawRange s c g) = apfst (setDrawRange s c) (computeBoundingBox g)
   \<and> computeBoundingSphere (setDrawRange s c g)
       = apfst (setDrawRange s c) (computeBoundingSphere g)"
proof -
  have n: "computeVertexNormals (setDrawRange s c g)
      = apfst (setDrawRange s c) (computeVertexNormals g)"
    by (simp add: computeVertexNormals_def setDrawRange_def setAttribute_def Let_def
        split: option.splits)
  have t: "computeTangents (setDrawRange s c g)
      = map_sum id (apfst (setDrawRange s c)) (computeTangents g)"
    by (simp add: computeTangents_def setDrawRange_def setAttribute_def Let_def bind_err_def
        split: option.splits sum.splits)
  have b: "computeBoundingBox (setDrawRange s c g)
      = apfst (setDrawRange s c) (computeBoundingBox g)"
    by (simp add: computeBoundingBox_def setDrawRange_def Let_def split: option.splits)
  have sp: "computeBoundingSphere (setDrawRange s c g)
      = apfst (setDrawRange s c) (computeBoundingSphere g)"
    by (simp add: computeBoundingSphere_def setDrawRange_def Let_def split: option.splits)
  from n t b sp show ?thesis by simp
qed

section \<open>Degenerate UV triangles\<close>

lemma foldE_append:
  "foldE f (xs @ ys) s = (case foldE f xs s of Inl e \<Rightarrow> Inl e | Inr s' \<Rightarrow> foldE f ys s')"
  by (induction xs arbitrary: s) (auto split: sum.splits)

lemma handleTriangle_degenerate:
  "\<not> isFinite (tangentScale uv a b c) \<Longrightarrow> handleTriangle p uv a b c tans = Inr tans"
  by (simp add: handleTriangle_def Let_def)

text \<open>
  C5. A triangle whose scale factor \<open>r\<close> is not finite leaves the accumulated tangent and
  bitangent totals of every vertex as they were and raises nothing, and the loop over the
  triangles goes on: processing a list of triangles that contains it gives what
  processing the list without it gives.
\<close>

theorem handleTriangle_degenerate_skipped:
  assumes "\<not> isFinite (tangentScale uv (index_getX ix (j + 0)) (index_getX ix (j + 1))
                          (index_getX ix (j + 2)))"
  shows "handleTriangle p uv (index_getX ix (j + 0)) (index_getX ix (j + 1)) (index_getX ix (j + 2)) tans
           = Inr tans
         \<and> handleTriangles p uv ix (js1 @ j # js2) tans0 = handleTriangles p uv ix (js1 @ js2) tans0"
  using assms
  by (simp add: handleTriangles_def foldE_append handleTriangle_degenerate split: sum.splits)

theorem handleTriangle_degenerate_skipped_witness:
  "\<not> isFinite (tangentScale quadUVs (Some 0) (Some 1) (Some 3))
   \<and> handleTriangles quadPositions quadUVs [0, 1, 3, 0, 1, 2] [0, 3]
        (replicate 4 (Vector3 (Fin 0) (Fin 0) (Fin 0)), replicate 4 (Vector3 (Fin 0) (Fin 0) (Fin 0)))
     = Inr ([Vector3 (Fin 1) (Fin 0) (Fin 0), Vector3 (Fin 1) (Fin 0) (Fin 0),
             Vector3 (Fin 1) (Fin 0) (Fin 0), Vector3 (Fin 0) (Fin 0) (Fin 0)],
            [Vector3 (Fin 0) (Fin 1) (Fin 0), Vector3 (Fin 0) (Fin 1) (Fin 0),
             Vector3 (Fin 0) (Fin 1) (Fin 0), Vector3 (Fin 0) (Fin 0) (Fin 0)])"
proof -
  have d: "\<not> isFinite (tangentScale quadUVs (index_getX [0, 1, 3, 0, 1, 2] (0 + 0))
      (index_getX [0, 1, 3, 0, 1, 2] (0 + 1)) (index_getX [0, 1, 3, 0, 1, 2] (0 + 2)))"
    by (simp add: tangentScale_def quadUVs_def index_getX_def fromBufferAttribute2_def
        getComponent_def getCell_def vertexBase_def BufferAttribute_new_def subVectors2_def
        num_sub_def Let_def)
  have e: "handleTriangles quadPositions quadUVs [0, 1, 3, 0, 1, 2] [3]
        (replicate 4 (Vector3 (Fin 0) (Fin 0) (Fin 0)), replicate 4 (Vector3 (Fin 0) (Fin 0) (Fin 0)))
     = Inr ([Vector3 (Fin 1) (Fin 0) (Fin 0), Vector3 (Fin 1) (Fin 0) (Fin 0),
             Vector3 (Fin 1) (Fin 0) (Fin 0), Vector3 (Fin 0) (Fin 0) (Fin 0)],
            [Vector3 (Fin 0) (Fin 1) (Fin 0), Vector3 (Fin 0) (Fin 1) (Fin 0),
             Vector3 (Fin 0) (Fin 1) (Fin 0), Vector3 (Fin 0) (Fin 0) (Fin 0)])"
    by (simp add: handleTriangles_def handleTriangle_def tangentScale_def quadUVs_def
        quadPositions_def index_getX_def fromBufferAttribute2_def fromBufferAttribute_def
        getComponent_def getCell_def vertexBase_def BufferAttribute_new_def subVectors2_def
        subVectors_def multiplyScalar_def addScaledVector_def addVectors_def addAt_def
        bind_err_def num_sub_def Let_def numeral_eq_Suc)
  from handleTriangle_degenerate_skipped [OF d, of quadPositions "(replicate 4 (Vector3 (Fin 0) (Fin 0) (Fin 0)), replicate 4 (Vector3 (Fin 0) (Fin 0) (Fin 0)))" "[]" "[3]"
      "(replicate 4 (Vector3 (Fin 0) (Fin 0) (Fin 0)), replicate 4 (Vector3 (Fin 0) (Fin 0) (Fin 0)))"] d e
  show ?thesis by (simp add: index_getX_def)
qed

section \<open>Expansion along the index\<close>

lemma length_setCell [simp]: "length (setCell arr c v) = length arr"
  by (simp add: setCell_def)

lemma nth_setCell: "d < length arr \<Longrightarrow> setCell arr c v ! d = (if d = c then v else arr ! d)"
  by (simp add: setCell_def)

lemma getCell_in_range: "c < length arr \<Longrightarrow> getCell arr c = arr ! c"
  by (simp add: getCell_def)

lemma length_concat_uniform:
  "(\<And>x. x \<in> set xs \<Longrightarrow> length (f x) = n) \<Longrightarrow> length (concat (map f xs)) = length xs * n"
  by (induction xs) auto

lemma nth_concat_uniform:
  "(\<And>x. x \<in> set xs \<Longrightarrow> length (f x) = n) \<Longrightarrow> i < length xs \<Longrightarrow> j < n \<Longrightarrow>
   concat (map f xs) ! (i * n + j) = f (xs ! i) ! j"
proof (induction xs arbitrary: i)
  case Nil
  then show ?case by simp
next
  case (Cons x xs)
  show ?case
  proof (cases i)
    case 0
    with Cons.prems show ?thesis by (simp add: nth_append)
  next
    case (Suc k)
    with Cons.prems have "k < length xs" by simp
    from Cons.IH [OF _ this \<open>j < n\<close>] Cons.prems(1)
    have "concat (map f xs) ! (k * n + j) = f (xs ! k) ! j" by simp
    moreover have "length (f x) = n" using Cons.prems(1) by simp
    ultimately show ?thesis using Suc by (simp add: nth_append)
  qed
qed

text \<open>
  The nested loops of \<^verbatim>\<open>convertBufferAttribute\<close> write, for every index entry in order,
  the \<^verbatim>\<open>itemSize\<close> cells of the vertex it names.
\<close>

lemma copyCells:
  "fold (copyCell arr) [0..<m] (A, idx, k) = (B, idx', k') \<Longrightarrow>
   length B = length A \<and> idx' = idx + m \<and> k' = k + m
   \<and> (\<forall>d<length A. B ! d = (if k \<le> d \<and> d < k + m then getCell arr (idx + (d - k)) else A ! d))"
proof (induction m arbitrary: B idx' k')
  case 0
  then show ?case by auto
next
  case (Suc m)
  obtain B0 i0 k0 where f: "fold (copyCell arr) [0..<m] (A, idx, k) = (B0, i0, k0)"
    by (cases "fold (copyCell arr) [0..<m] (A, idx, k)") auto
  from Suc.IH [OF f] have l: "length B0 = length A" and i: "i0 = idx + m" and k: "k0 = k + m"
    and c: "\<forall>d<length A. B0 ! d = (if k \<le> d \<and> d < k + m then getCell arr (idx + (d - k)) else A ! d)"
    by simp_all
  from Suc.prems have "copyCell arr m (fold (copyCell arr) [0..<m] (A, idx, k)) = (B, idx', k')"
    by simp
  then have "copyCell arr m (B0, i0, k0) = (B, idx', k')" unfolding f .
  then have B: "B = setCell B0 k0 (getCell arr i0)" and "idx' = i0 + 1" "k' = k0 + 1"
    by (simp_all add: copyCell_def Let_def)
  moreover have "B ! d = (if k \<le> d \<and> d < k + Suc m then getCell arr (idx + (d - k)) else A ! d)"
    if "d < length A" for d
  proof (cases "d = k0")
    case True
    with that l B i k show ?thesis by (simp add: nth_setCell)
  next
    case False
    with that l B have "B ! d = B0 ! d" by (simp add: nth_setCell)
    with c that False k show ?thesis by auto
  qed
  ultimately show ?case using l i k by simp
qed


lemma convertRounds:
  assumes "m \<le> length ixs" and "length A = length ixs * n"
    and "fold (\<lambda>i st. fold (copyCell arr) [0..<n] (fst st, vertexBase a (ixs ! i), snd (snd st)))
           [0..<m] (A, 0, 0) = (B, idx, k)"
  shows "length B = length A \<and> k = m * n
    \<and> (\<forall>i<m. \<forall>j<n. B ! (i * n + j) = getCell arr (vertexBase a (ixs ! i) + j))"
  using assms(1,3)
proof (induction m arbitrary: B idx k)
  case 0
  then show ?case by simp
next
  case (Suc m)
  let ?step = "\<lambda>i st. fold (copyCell arr) [0..<n] (fst st, vertexBase a (ixs ! i), snd (snd st))"
  obtain B0 i0 k0 where f: "fold ?step [0..<m] (A, 0, 0) = (B0, i0, k0)"
    by (cases "fold ?step [0..<m] (A, 0, 0)") auto
  from Suc.prems(1) have m: "m \<le> length ixs" by simp
  from Suc.IH [OF m f] have l0: "length B0 = length A" and k0: "k0 = m * n"
    and c0: "\<forall>i<m. \<forall>j<n. B0 ! (i * n + j) = getCell arr (vertexBase a (ixs ! i) + j)"
    by simp_all
  from Suc.prems(2)
  have "?step m (fold ?step [0..<m] (A, 0, 0)) = (B, idx, k)" by simp
  then have "fold (copyCell arr) [0..<n] (B0, vertexBase a (ixs ! m), k0) = (B, idx, k)"
    unfolding f by simp
  from copyCells [OF this]
  have l: "length B = length B0" and k: "k = k0 + n"
    and c: "\<forall>d<length B0. B ! d = (if k0 \<le> d \<and> d < k0 + n
              then getCell arr (vertexBase a (ixs ! m) + (d - k0)) else B0 ! d)"
    by simp_all
  have inrange: "i * n + j < length B0" if "i < Suc m" "j < n" for i j
  proof -
    have "i * n + j < Suc i * n" using that by simp
    also have "\<dots> \<le> length ixs * n" using that Suc.prems(1) by (intro mult_le_mono1) simp
    finally show ?thesis using l0 assms(2) by simp
  qed
  have "B ! (i * n + j) = getCell arr (vertexBase a (ixs ! i) + j)" if "i < Suc m" "j < n" for i j
  proof (cases "i = m")
    case True
    with c inrange [OF that] that k0 show ?thesis by simp
  next
    case False
    with that have im: "i < m" by simp
    then have "i * n + j < Suc i * n" using that by simp
    also have "\<dots> \<le> m * n" using im by (intro mult_le_mono1) simp
    finally have "i * n + j < k0" using k0 by simp
    with c inrange [OF that] have "B ! (i * n + j) = B0 ! (i * n + j)" by simp
    with c0 im that show ?thesis by simp
  qed
  then show ?case using l l0 k k0 by simp
qed

lemma convertBufferAttribute_array:
  "array (convertBufferAttribute a ixs)
   = concat (map (\<lambda>v. map (\<lambda>j. getCell (array a) (vertexBase a v + j)) [0..<itemSize a]) ixs)"
proof -
  let ?n = "itemSize a"
  let ?A = "Float32Array (length ixs * ?n)"
  let ?f = "\<lambda>v. map (\<lambda>j. getCell (array a) (vertexBase a v + j)) [0..<?n]"
  obtain B idx k where
    f: "fold (\<lambda>i st. fold (copyCell (array a)) [0..<?n] (fst st, vertexBase a (ixs ! i), snd (snd st)))
           [0..<length ixs] (?A, 0, 0) = (B, idx, k)"
    by (cases "fold (\<lambda>i st. fold (copyCell (array a)) [0..<?n]
                 (fst st, vertexBase a (ixs ! i), snd (snd st))) [0..<length ixs] (?A, 0, 0)") auto
  have lA: "length ?A = length ixs * ?n" by (simp add: Float32Array_def)
  from convertRounds [OF le_refl lA f]
  have lB: "length B = length ixs * ?n"
    and c: "\<forall>i<length ixs. \<forall>j<?n. B ! (i * ?n + j) = getCell (array a) (vertexBase a (ixs ! i) + j)"
    using lA by simp_all
  have len: "length (concat (map ?f ixs)) = length ixs * ?n"
    by (rule length_concat_uniform) simp
  have "B = concat (map ?f ixs)"
  proof (rule nth_equalityI)
    show "length B = length (concat (map ?f ixs))" using lB len by simp
  next
    fix d assume "d < length B"
    with lB have d: "d < length ixs * ?n" by simp
    then have n: "0 < ?n" by (cases "?n") simp_all
    define i j where "i = d div ?n" and "j = d mod ?n"
    have dj: "d = i * ?n + j" by (simp add: i_def j_def)
    have j: "j < ?n" using n by (simp add: j_def)
    have i: "i < length ixs" using d n by (simp add: i_def less_mult_imp_div_less)
    from c i j have "B ! d = getCell (array a) (vertexBase a (ixs ! i) + j)" by (simp add: dj)
    also have "\<dots> = concat (map ?f ixs) ! (i * ?n + j)"
      using nth_concat_uniform [of ixs ?f ?n i j] i j by simp
    finally show "B ! d = concat (map ?f ixs) ! d" by (simp add: dj)
  qed
  with f show ?thesis by (simp add: convertBufferAttribute_def Let_def BufferAttribute_new_def)
qed

lemma convert_expanded: "expandedFrom a ix (convertBufferAttribute a ix)"
proof -
  let ?n = "itemSize a"
  let ?f = "\<lambda>v. map (\<lambda>j. getCell (array a) (vertexBase a v + j)) [0..<?n]"
  have len: "length (concat (map ?f ix)) = length ix * ?n"
    by (rule length_concat_uniform) simp
  have cells: "concat (map ?f ix) ! (i * ?n + j) = getCell (array a) (vertexBase a (ix ! i) + j)"
    if "i < length ix" "j < ?n" for i j
    using nth_concat_uniform [of ix ?f ?n i j] that by simp
  have inrange: "i * ?n + j < length ix * ?n" if "i < length ix" "j < ?n" for i j
  proof -
    have "i * ?n + j < i * ?n + ?n" using that by simp
    also have "\<dots> = (Suc i) * ?n" by simp
    also have "\<dots> \<le> length ix * ?n" using that by (intro mult_le_mono1) simp
    finally show ?thesis .
  qed
  have arr: "array (convertBufferAttribute a ix) = concat (map ?f ix)"
    by (rule convertBufferAttribute_array)
  have sz: "itemSize (convertBufferAttribute a ix) = ?n"
    and plain: "\<not> isInterleavedBufferAttribute (convertBufferAttribute a ix)"
    by (simp_all add: convertBufferAttribute_def BufferAttribute_new_def Let_def)
  have cnt: "attr_count (convertBufferAttribute a ix) = length ix" if "0 < ?n"
    using that by (simp add: attr_count_def plain arr sz len)
  have comp: "getComponent (convertBufferAttribute a ix) i j = getComponent a (ix ! i) j"
    if "i < length ix" "j < ?n" for i j
  proof -
    have "getComponent (convertBufferAttribute a ix) i j
        = getCell (concat (map ?f ix)) (i * ?n + j)"
      by (simp add: getComponent_def vertexBase_def plain arr sz)
    also have "\<dots> = concat (map ?f ix) ! (i * ?n + j)"
      using inrange [OF that] by (simp add: getCell_in_range len)
    also have "\<dots> = getCell (array a) (vertexBase a (ix ! i) + j)"
      by (rule cells [OF that])
    finally show ?thesis by (simp add: getComponent_def)
  qed
  show ?thesis
    unfolding expandedFrom_def using sz cnt comp by blast
qed

lemma groups_copied:
  "groups (fold (\<lambda>gr. addGroup (start gr) (count gr) (materialIndex gr)) gs g1) = groups g1 @ gs"
  by (induction gs arbitrary: g1) (auto simp add: addGroup_def)

lemma fold_addGroup_other:
  "index (fold (\<lambda>gr. addGroup (start gr) (count gr) (materialIndex gr)) gs g1) = index g1
   \<and> attributes (fold (\<lambda>gr. addGroup (start gr) (count gr) (materialIndex gr)) gs g1) = attributes g1
   \<and> morphAttributes (fold (\<lambda>gr. addGroup (start gr) (count gr) (materialIndex gr)) gs g1) = morphAttributes g1
   \<and> morphTargetsRelative (fold (\<lambda>gr. addGroup (start gr) (count gr) (materialIndex gr)) gs g1) = morphTargetsRelative g1"
  by (induction gs arbitrary: g1) (auto simp add: addGroup_def)

text \<open>
  C7. On a geometry without index \<^verbatim>\<open>toNonIndexed\<close> reports a warning and returns the
  geometry it was given. On an indexed geometry it reports nothing and returns a geometry
  with no index, the same morph-relativity flag and the same groups, whose attributes are
  those of the source under the same names, each expanded along the index: as many
  vertices as the index has entries, vertex \<open>i\<close> holding what the source attribute holds
  at the vertex the \<open>i\<close>-th index entry names; and likewise for every morph target of
  every morph attribute.
\<close>

theorem toNonIndexed_expands:
  "(case index g of
      None \<Rightarrow> toNonIndexed g = (g, [notIndexedWarning])
    | Some ix \<Rightarrow>
        snd (toNonIndexed g) = []
        \<and> index (fst (toNonIndexed g)) = None
        \<and> morphTargetsRelative (fst (toNonIndexed g)) = morphTargetsRelative g
        \<and> groups (fst (toNonIndexed g)) = groups g
        \<and> (\<forall>nm. rel_option (\<lambda>a a2. expandedFrom a ix a2)
                   (attributes g nm) (attributes (fst (toNonIndexed g)) nm))
        \<and> (\<forall>nm. rel_option (list_all2 (\<lambda>a a2. expandedFrom a ix a2))
                   (morphAttributes g nm) (morphAttributes (fst (toNonIndexed g)) nm)))"
proof (cases "index g")
  case None
  then show ?thesis by (simp add: toNonIndexed_def notIndexedWarning_def)
next
  case (Some ix)
  have a: "rel_option (\<lambda>a a2. expandedFrom a ix a2) (attributes g nm)
             (map_option (\<lambda>a. convertBufferAttribute a ix) (attributes g nm))" for nm
    by (cases "attributes g nm") (simp_all add: convert_expanded)
  have m: "rel_option (list_all2 (\<lambda>a a2. expandedFrom a ix a2)) (morphAttributes g nm)
             (map_option (map (\<lambda>a. convertBufferAttribute a ix)) (morphAttributes g nm))" for nm
    by (cases "morphAttributes g nm") (simp_all add: list_all2_conv_all_nth convert_expanded)
  show ?thesis
    using Some a m
    by (simp add: toNonIndexed_def Let_def groups_copied fold_addGroup_other BufferGeometry_new_def)
qed


theorem toNonIndexed_expands_witness:
  "index quadGeometry = Some [0, 1, 2, 2, 1, 3]
   \<and> attr_count quadPositions = 4
   \<and> index (fst (toNonIndexed quadGeometry)) = None
   \<and> groups (fst (toNonIndexed quadGeometry)) = [\<lparr>start = 0, count = 6, materialIndex = 0\<rparr>]
   \<and> map_option attr_count (attributes (fst (toNonIndexed quadGeometry)) ''position'') = Some 6
   \<and> map_option attr_count (attributes (fst (toNonIndexed quadGeometry)) ''uv'') = Some 6
   \<and> map_option array (attributes (fst (toNonIndexed quadGeometry)) ''position'') =
        Some [Fin 0, Fin 0, Fin 0,  Fin 1, Fin 0, Fin 0,  Fin 0, Fin 1, Fin 0,
              Fin 0, Fin 1, Fin 0,  Fin 1, Fin 0, Fin 0,  Fin 2, Fin 0, Fin 0]"
proof -
  have i: "index quadGeometry = Some [0, 1, 2, 2, 1, 3]"
    by (simp add: quadGeometry_def addGroup_def setAttribute_def setIndex_def)
  have gs: "groups quadGeometry = [\<lparr>start = 0, count = 6, materialIndex = 0\<rparr>]"
    by (simp add: quadGeometry_def addGroup_def setAttribute_def setIndex_def BufferGeometry_new_def)
  have p: "attributes quadGeometry ''position'' = Some quadPositions"
    and u: "attributes quadGeometry ''uv'' = Some quadUVs"
    by (simp_all add: quadGeometry_def addGroup_def setAttribute_def)
  have c: "attr_count quadPositions = 4"
    by (simp add: quadPositions_def BufferAttribute_new_def attr_count_def)
  have sz: "0 < itemSize quadPositions" "0 < itemSize quadUVs"
    by (simp_all add: quadPositions_def quadUVs_def BufferAttribute_new_def)
  from toNonIndexed_expands [of quadGeometry] i
  have r: "index (fst (toNonIndexed quadGeometry)) = None"
    and g: "groups (fst (toNonIndexed quadGeometry)) = groups quadGeometry"
    and a: "\<And>nm. rel_option (\<lambda>a a2. expandedFrom a [0, 1, 2, 2, 1, 3] a2)
               (attributes quadGeometry nm) (attributes (fst (toNonIndexed quadGeometry)) nm)"
    by simp_all
  from a [of "''position''"] p sz
  have cp: "map_option attr_count (attributes (fst (toNonIndexed quadGeometry)) ''position'') = Some 6"
    by (cases "attributes (fst (toNonIndexed quadGeometry)) ''position''")
      (simp_all add: expandedFrom_def)
  from a [of "''uv''"] u sz
  have cu: "map_option attr_count (attributes (fst (toNonIndexed quadGeometry)) ''uv'') = Some 6"
    by (cases "attributes (fst (toNonIndexed quadGeometry)) ''uv''")
      (simp_all add: expandedFrom_def)
  have ar: "map_option array (attributes (fst (toNonIndexed quadGeometry)) ''position'') =
        Some [Fin 0, Fin 0, Fin 0,  Fin 1, Fin 0, Fin 0,  Fin 0, Fin 1, Fin 0,
              Fin 0, Fin 1, Fin 0,  Fin 1, Fin 0, Fin 0,  Fin 2, Fin 0, Fin 0]"
    using i p
    by (simp add: toNonIndexed_def Let_def fold_addGroup_other BufferGeometry_new_def
        convertBufferAttribute_array BufferAttribute_new_def quadPositions_def vertexBase_def
        getCell_def upt_rec)
  from i c r g gs cp cu ar show ?thesis by simp
qed

section \<open>Recomputing the vertex normals\<close>

lemma setXYZ_frame:
  "setXYZ a v x y z = a\<lparr>array := array (setXYZ a v x y z)\<rparr>"
  by (simp add: setXYZ_def split: option.splits)

lemma length_setXYZ [simp]: "length (array (setXYZ a v x y z)) = length (array a)"
  by (simp add: setXYZ_def split: option.splits)

lemma vertexBase_array [simp]: "vertexBase (a\<lparr>array := A\<rparr>) i = vertexBase a i"
  by (simp add: vertexBase_def)

lemma nth_setXYZ:
  "d < length (array a) \<Longrightarrow>
   array (setXYZ a (Some i) x y z) ! d =
     (if d = vertexBase a i + 2 then z else if d = vertexBase a i + 1 then y
      else if d = vertexBase a i then x else array a ! d)"
  by (simp add: setXYZ_def nth_setCell)

lemma zeroFold:
  "fold (\<lambda>i a. setXYZ a (Some i) (Fin 0) (Fin 0) (Fin 0)) [0..<m] a =
   a\<lparr>array := map (\<lambda>d. if xyzCell a m d then Fin 0 else array a ! d) [0..<length (array a)]\<rparr>"
proof (induction m)
  case 0
  show ?case by (simp add: xyzCell_def map_nth)
next
  case (Suc m)
  let ?A = "map (\<lambda>d. if xyzCell a m d then Fin 0 else array a ! d) [0..<length (array a)]"
  have "fold (\<lambda>i a. setXYZ a (Some i) (Fin 0) (Fin 0) (Fin 0)) [0..<Suc m] a
      = setXYZ (a\<lparr>array := ?A\<rparr>) (Some m) (Fin 0) (Fin 0) (Fin 0)"
    using Suc.IH by simp
  also have "\<dots> = a\<lparr>array := array (setXYZ (a\<lparr>array := ?A\<rparr>) (Some m) (Fin 0) (Fin 0) (Fin 0))\<rparr>"
    by (subst setXYZ_frame) simp
  also have "array (setXYZ (a\<lparr>array := ?A\<rparr>) (Some m) (Fin 0) (Fin 0) (Fin 0))
      = map (\<lambda>d. if xyzCell a (Suc m) d then Fin 0 else array a ! d) [0..<length (array a)]"
  proof (rule nth_equalityI)
    show "length (array (setXYZ (a\<lparr>array := ?A\<rparr>) (Some m) (Fin 0) (Fin 0) (Fin 0)))
        = length (map (\<lambda>d. if xyzCell a (Suc m) d then Fin 0 else array a ! d) [0..<length (array a)])"
      by simp
  next
    fix d assume "d < length (array (setXYZ (a\<lparr>array := ?A\<rparr>) (Some m) (Fin 0) (Fin 0) (Fin 0)))"
    then have d: "d < length (array a)" by simp
    have step: "xyzCell a (Suc m) d \<longleftrightarrow> xyzCell a m d \<or> d = vertexBase a m \<or> d = vertexBase a m + 1
        \<or> d = vertexBase a m + 2"
    proof -
      have "(\<exists>k<3. d = vertexBase a m + k) \<longleftrightarrow> d = vertexBase a m \<or> d = vertexBase a m + 1
        \<or> d = vertexBase a m + 2"
      proof
        assume "\<exists>k<3. d = vertexBase a m + k"
        then obtain k where "k < 3" "d = vertexBase a m + k" by blast
        then have "k = 0 \<or> k = 1 \<or> k = 2" by arith
        with \<open>d = vertexBase a m + k\<close> show "d = vertexBase a m \<or> d = vertexBase a m + 1
          \<or> d = vertexBase a m + 2" by auto
      next
        assume "d = vertexBase a m \<or> d = vertexBase a m + 1 \<or> d = vertexBase a m + 2"
        then have "d = vertexBase a m + 0 \<or> d = vertexBase a m + 1 \<or> d = vertexBase a m + 2" by simp
        then show "\<exists>k<3. d = vertexBase a m + k"
          by (metis zero_less_numeral one_less_numeral_iff semiring_norm(77) lessI numeral_3_eq_3 numeral_2_eq_2)
      qed
      then show ?thesis unfolding xyzCell_def by (auto simp add: less_Suc_eq)
    qed
    show "array (setXYZ (a\<lparr>array := ?A\<rparr>) (Some m) (Fin 0) (Fin 0) (Fin 0)) ! d
        = map (\<lambda>d. if xyzCell a (Suc m) d then Fin 0 else array a ! d) [0..<length (array a)] ! d"
      using d by (simp add: nth_setXYZ step)
  qed
  finally show ?case .
qed


lemma attr_count_array: "length A = length (array a) \<Longrightarrow> attr_count (a\<lparr>array := A\<rparr>) = attr_count a"
  by (simp add: attr_count_def)

lemma xyzCell_array [simp]: "xyzCell (a\<lparr>array := A\<rparr>) m d = xyzCell a m d"
  by (simp add: xyzCell_def)

lemma zeroNormals_eq:
  "zeroNormals a =
   a\<lparr>array := map (\<lambda>d. if xyzCell a (attr_count a) d then Fin 0 else array a ! d)
                  [0..<length (array a)]\<rparr>"
  by (simp add: zeroNormals_def zeroFold)

text \<open>In a well-formed attribute a cell in range belongs to a vertex below the count.\<close>

lemma wellFormed_cell:
  assumes "wellFormed a" and "vertexBase a i + k < length (array a)"
  shows "i < attr_count a"
proof (cases "isInterleavedBufferAttribute a")
  case True
  with assms(1) have s: "0 < stride a" and m: "length (array a) mod stride a = 0"
    by (simp_all add: wellFormed_def)
  from m have l: "length (array a) = attr_count a * stride a"
    using True by (auto simp add: attr_count_def)
  from assms(2) True have "i * stride a < length (array a)" by (simp add: vertexBase_def)
  with l have "i * stride a < attr_count a * stride a" by simp
  then show ?thesis by simp
next
  case False
  with assms(1) have s: "0 < itemSize a" and m: "length (array a) mod itemSize a = 0"
    by (simp_all add: wellFormed_def)
  from m have l: "length (array a) = attr_count a * itemSize a"
    using False by (auto simp add: attr_count_def)
  from assms(2) False have "i * itemSize a < length (array a)" by (simp add: vertexBase_def)
  with l have "i * itemSize a < attr_count a * itemSize a" by simp
  then show ?thesis by simp
qed

lemma wellFormed_setXYZ [simp]: "wellFormed (setXYZ a v x y z) = wellFormed a"
  by (simp add: setXYZ_def wellFormed_def split: option.splits)

lemma attr_count_setXYZ [simp]: "attr_count (setXYZ a v x y z) = attr_count a"
  by (simp add: setXYZ_def attr_count_def split: option.splits)

lemma zeroNormals_setXYZ:
  assumes "wellFormed a"
  shows "zeroNormals (setXYZ a v x y z) = zeroNormals a"
proof (cases v)
  case None
  then show ?thesis by (simp add: setXYZ_def)
next
  case (Some i)
  let ?a' = "setXYZ a (Some i) x y z"
  have f: "?a' = a\<lparr>array := array ?a'\<rparr>" by (rule setXYZ_frame)
  have "map (\<lambda>d. if xyzCell a (attr_count a) d then Fin 0 else array ?a' ! d) [0..<length (array a)]
      = map (\<lambda>d. if xyzCell a (attr_count a) d then Fin 0 else array a ! d) [0..<length (array a)]"
  proof (rule map_cong [OF refl])
    fix d assume "d \<in> set [0..<length (array a)]"
    then have d: "d < length (array a)" by simp
    show "(if xyzCell a (attr_count a) d then Fin 0 else array ?a' ! d)
        = (if xyzCell a (attr_count a) d then Fin 0 else array a ! d)"
    proof (cases "xyzCell a (attr_count a) d")
      case True
      then show ?thesis by simp
    next
      case False
      have "d \<noteq> vertexBase a i + k" if "k < 3" for k
      proof
        assume e: "d = vertexBase a i + k"
        with d assms have "i < attr_count a" using wellFormed_cell by blast
        with e that have "xyzCell a (attr_count a) d" unfolding xyzCell_def by blast
        with False show False by simp
      qed
      from this [of 0] this [of 1] this [of 2]
      have "d \<noteq> vertexBase a i" "d \<noteq> vertexBase a i + 1" "d \<noteq> vertexBase a i + 2" by simp_all
      then show ?thesis using d False by (simp add: nth_setXYZ)
    qed
  qed
  moreover have "xyzCell ?a' m d = xyzCell a m d" for m d
    by (simp add: xyzCell_def setXYZ_def vertexBase_def)
  moreover have "?a'\<lparr>array := M\<rparr> = a\<lparr>array := M\<rparr>" for M
    by (subst f) simp
  ultimately have "zeroNormals ?a' = zeroNormals a"
    by (simp add: zeroNormals_eq [of ?a'] zeroNormals_eq [of a])
  with Some show ?thesis by simp
qed


lemma fold_absorbed:
  assumes "\<And>x a. wellFormed a \<Longrightarrow> wellFormed (f x a) \<and> zeroNormals (f x a) = zeroNormals a"
    and "wellFormed a"
  shows "wellFormed (fold f xs a) \<and> zeroNormals (fold f xs a) = zeroNormals a"
  using assms(2)
proof (induction xs arbitrary: a)
  case Nil
  then show ?case by simp
next
  case (Cons x xs)
  from assms(1) [OF Cons.prems] have w: "wellFormed (f x a)" and z: "zeroNormals (f x a) = zeroNormals a"
    by simp_all
  from Cons.IH [OF w] z show ?case by simp
qed

lemma indexedNormalStep_absorbed:
  "wellFormed n \<Longrightarrow> wellFormed (indexedNormalStep p ix i n)
     \<and> zeroNormals (indexedNormalStep p ix i n) = zeroNormals n"
  by (simp add: indexedNormalStep_def Let_def zeroNormals_setXYZ)

lemma nonIndexedNormalStep_absorbed:
  "wellFormed n \<Longrightarrow> wellFormed (nonIndexedNormalStep p i n)
     \<and> zeroNormals (nonIndexedNormalStep p i n) = zeroNormals n"
  by (simp add: nonIndexedNormalStep_def Let_def zeroNormals_setXYZ)

lemma normalizeNormals_absorbed:
  assumes "wellFormed n"
  shows "wellFormed (normalizeNormals n) \<and> zeroNormals (normalizeNormals n) = zeroNormals n"
  unfolding normalizeNormals_def
  by (rule fold_absorbed [OF _ assms]) (simp add: Let_def zeroNormals_setXYZ)

lemma zeroNormals_absorbed:
  assumes "wellFormed n"
  shows "wellFormed (zeroNormals n) \<and> zeroNormals (zeroNormals n) = zeroNormals n"
proof -
  have "wellFormed (fold (\<lambda>i a. setXYZ a (Some i) (Fin 0) (Fin 0) (Fin 0)) [0..<attr_count n] n)
      \<and> zeroNormals (fold (\<lambda>i a. setXYZ a (Some i) (Fin 0) (Fin 0) (Fin 0)) [0..<attr_count n] n)
        = zeroNormals n"
    by (rule fold_absorbed [OF _ assms]) (simp add: zeroNormals_setXYZ)
  then show ?thesis by (simp add: zeroNormals_def)
qed

text \<open>The passes over the normal attribute neither read nor write its \<^verbatim>\<open>needsUpdate\<close> flag.\<close>

lemma setXYZ_flag:
  "setXYZ (a\<lparr>needsUpdate := u\<rparr>) v x y z = (setXYZ a v x y z)\<lparr>needsUpdate := u\<rparr>"
  by (simp add: setXYZ_def vertexBase_def split: option.splits)

lemma fromBufferAttribute_flag [simp]:
  "fromBufferAttribute (a\<lparr>needsUpdate := u\<rparr>) v = fromBufferAttribute a v"
  by (simp add: fromBufferAttribute_def getComponent_def vertexBase_def split: option.splits)

lemma attr_count_flag [simp]: "attr_count (a\<lparr>needsUpdate := u\<rparr>) = attr_count a"
  by (simp add: attr_count_def)

lemma fold_flag:
  assumes "\<And>x a. f x (a\<lparr>needsUpdate := u\<rparr>) = (f x a)\<lparr>needsUpdate := u\<rparr>"
  shows "fold f xs (a\<lparr>needsUpdate := u\<rparr>) = (fold f xs a)\<lparr>needsUpdate := u\<rparr>"
  by (induction xs arbitrary: a) (simp_all add: assms)

lemma zeroNormals_flag: "zeroNormals (a\<lparr>needsUpdate := u\<rparr>) = (zeroNormals a)\<lparr>needsUpdate := u\<rparr>"
  unfolding zeroNormals_def attr_count_flag by (rule fold_flag) (simp add: setXYZ_flag)

lemma normalizeNormals_flag:
  "normalizeNormals (a\<lparr>needsUpdate := u\<rparr>) = (normalizeNormals a)\<lparr>needsUpdate := u\<rparr>"
  unfolding normalizeNormals_def attr_count_flag by (rule fold_flag) (simp add: setXYZ_flag Let_def)

lemma indexedNormalStep_flag:
  "indexedNormalStep p ix i (a\<lparr>needsUpdate := u\<rparr>) = (indexedNormalStep p ix i a)\<lparr>needsUpdate := u\<rparr>"
  by (simp add: indexedNormalStep_def Let_def setXYZ_flag)

lemma nonIndexedNormalStep_flag:
  "nonIndexedNormalStep p i (a\<lparr>needsUpdate := u\<rparr>) = (nonIndexedNormalStep p i a)\<lparr>needsUpdate := u\<rparr>"
  by (simp add: nonIndexedNormalStep_def Let_def setXYZ_flag)

lemma recomputeNormals_absorbed:
  assumes "wellFormed n"
  shows "zeroNormals (recomputeNormals p ixo n) = zeroNormals n"
proof (cases ixo)
  case None
  have "wellFormed (fold (nonIndexedNormalStep p) (upto3 0 (attr_count p)) n)
      \<and> zeroNormals (fold (nonIndexedNormalStep p) (upto3 0 (attr_count p)) n) = zeroNormals n"
    by (rule fold_absorbed [OF _ assms]) (rule nonIndexedNormalStep_absorbed)
  with None show ?thesis
    using normalizeNormals_absorbed by (simp add: recomputeNormals_def)
next
  case (Some ix)
  have "wellFormed (fold (indexedNormalStep p ix) (upto3 0 (length ix)) n)
      \<and> zeroNormals (fold (indexedNormalStep p ix) (upto3 0 (length ix)) n) = zeroNormals n"
    by (rule fold_absorbed [OF _ assms]) (rule indexedNormalStep_absorbed)
  with Some show ?thesis
    using normalizeNormals_absorbed by (simp add: recomputeNormals_def)
qed

lemma recomputeNormals_flag:
  "recomputeNormals p ixo (a\<lparr>needsUpdate := u\<rparr>) = (recomputeNormals p ixo a)\<lparr>needsUpdate := u\<rparr>"
proof (cases ixo)
  case None
  have "fold (nonIndexedNormalStep p) (upto3 0 (attr_count p)) (a\<lparr>needsUpdate := u\<rparr>)
      = (fold (nonIndexedNormalStep p) (upto3 0 (attr_count p)) a)\<lparr>needsUpdate := u\<rparr>"
    by (rule fold_flag) (rule nonIndexedNormalStep_flag)
  with None show ?thesis by (simp add: recomputeNormals_def normalizeNormals_flag)
next
  case (Some ix)
  have "fold (indexedNormalStep p ix) (upto3 0 (length ix)) (a\<lparr>needsUpdate := u\<rparr>)
      = (fold (indexedNormalStep p ix) (upto3 0 (length ix)) a)\<lparr>needsUpdate := u\<rparr>"
    by (rule fold_flag) (rule indexedNormalStep_flag)
  with Some show ?thesis by (simp add: recomputeNormals_def normalizeNormals_flag)
qed

lemma computeVertexNormals_eq:
  "attributes g ''position'' = Some p \<Longrightarrow>
   computeVertexNormals g =
     (setAttribute ''normal''
        ((recomputeNormals p (index g)
            (case attributes g ''normal'' of
               None \<Rightarrow> BufferAttribute_new (Float32Array (attr_count p * 3)) 3 False
             | Some n \<Rightarrow> zeroNormals n))\<lparr>needsUpdate := True\<rparr>) g, [])"
  by (simp add: computeVertexNormals_def recomputeNormals_def Let_def)

lemma zeroNormals_zeros:
  "zeroNormals (BufferAttribute_new (Float32Array k) 3 False) = BufferAttribute_new (Float32Array k) 3 False"
proof -
  let ?a = "BufferAttribute_new (Float32Array k) 3 False"
  have "map (\<lambda>d. if xyzCell ?a (attr_count ?a) d then Fin 0 else array ?a ! d) [0..<length (array ?a)]
      = array ?a"
    by (rule nth_equalityI) (simp_all add: BufferAttribute_new_def Float32Array_def)
  then show ?thesis by (simp add: zeroNormals_eq [of ?a])
qed

lemma wellFormed_zeros: "wellFormed (BufferAttribute_new (Float32Array (k * 3)) 3 False)"
  by (simp add: wellFormed_def BufferAttribute_new_def Float32Array_def)

lemma wellFormed_flag [simp]: "wellFormed (a\<lparr>needsUpdate := u\<rparr>) = wellFormed a"
  by (simp add: wellFormed_def)

lemma computeVertexNormals_twice:
  assumes "wellFormedGeometry g"
  shows "computeVertexNormals (fst (computeVertexNormals g)) = computeVertexNormals g"
proof (cases "attributes g ''position''")
  case None
  then show ?thesis by (simp add: computeVertexNormals_def)
next
  case (Some p)
  define n0 where "n0 = (case attributes g ''normal'' of
               None \<Rightarrow> BufferAttribute_new (Float32Array (attr_count p * 3)) 3 False
             | Some n \<Rightarrow> zeroNormals n)"
  define R where "R = (recomputeNormals p (index g) n0)\<lparr>needsUpdate := True\<rparr>"
  have first: "computeVertexNormals g = (setAttribute ''normal'' R g, [])"
    using computeVertexNormals_eq [OF Some] by (simp add: R_def n0_def)
  have w0: "wellFormed n0" and z0: "zeroNormals n0 = n0"
  proof -
    show "wellFormed n0"
    proof (cases "attributes g ''normal''")
      case None
      then show ?thesis by (simp add: n0_def wellFormed_zeros)
    next
      case (Some n)
      then have "n \<in> ran (attributes g)" by (auto simp add: ran_def)
      with assms have "wellFormed n" by (simp add: wellFormedGeometry_def)
      with Some show ?thesis using zeroNormals_absorbed by (simp add: n0_def)
    qed
    show "zeroNormals n0 = n0"
    proof (cases "attributes g ''normal''")
      case None
      then show ?thesis by (simp add: n0_def zeroNormals_zeros)
    next
      case (Some n)
      then have "n \<in> ran (attributes g)" by (auto simp add: ran_def)
      with assms have "wellFormed n" by (simp add: wellFormedGeometry_def)
      with Some show ?thesis using zeroNormals_absorbed by (simp add: n0_def)
    qed
  qed
  have zR: "zeroNormals R = n0\<lparr>needsUpdate := True\<rparr>"
    using recomputeNormals_absorbed [OF w0, of p "index g"] z0
    by (simp add: R_def zeroNormals_flag)
  let ?g' = "setAttribute ''normal'' R g"
  have p': "attributes ?g' ''position'' = Some p" using Some by (simp add: setAttribute_def)
  have n': "attributes ?g' ''normal'' = Some R" by (simp add: setAttribute_def)
  have "computeVertexNormals ?g' =
      (setAttribute ''normal'' ((recomputeNormals p (index ?g') (zeroNormals R))\<lparr>needsUpdate := True\<rparr>) ?g', [])"
    using computeVertexNormals_eq [OF p'] n' by simp
  also have "index ?g' = index g" by (simp add: setAttribute_def)
  also have "(recomputeNormals p (index g) (zeroNormals R))\<lparr>needsUpdate := True\<rparr> = R"
    unfolding zR by (simp add: recomputeNormals_flag R_def)
  also have "setAttribute ''normal'' R ?g' = ?g'" by (simp add: setAttribute_def)
  finally show ?thesis using first by simp
qed

lemma stale_counts: "attr_count staleNormals = 3" "attr_count trianglePositions = 3"
  by (simp_all add: attr_count_def staleNormals_def trianglePositions_def BufferAttribute_new_def)

lemma upt_3: "[0..<3] = [0, 1, 2]" "upto3 0 3 = [0]"
  by (simp_all add: upt_rec upto3_def)

lemma stale_zeroed: "zeroNormals staleNormals = BufferAttribute_new (Float32Array 9) 3 False"
  unfolding zeroNormals_def stale_counts upt_3
  by (simp add: setXYZ_def setCell_def vertexBase_def staleNormals_def
      BufferAttribute_new_def Float32Array_def numeral_eq_Suc)

lemma stale_step: "indexedNormalStep trianglePositions [0, 1, 2] 0 (BufferAttribute_new (Float32Array 9) 3 False)
   = BufferAttribute_new [Fin 0, Fin 0, Fin 1,  Fin 0, Fin 0, Fin 1,  Fin 0, Fin 0, Fin 1] 3 False"
  by code_simp

lemma unit_normals_count: "attr_count (BufferAttribute_new [Fin 0, Fin 0, Fin 1,  Fin 0, Fin 0, Fin 1,  Fin 0, Fin 0, Fin 1] 3 False) = 3"
  by (simp add: attr_count_def BufferAttribute_new_def)

lemma normalize_unit_z: "normalize (Vector3 (Fin 0) (Fin 0) (Fin 1)) = Vector3 (Fin 0) (Fin 0) (Fin 1)"
  by (simp add: normalize_def vec_length_def dot_def multiplyScalar_def Let_def)

lemma unit_normals_read: "fromBufferAttribute (BufferAttribute_new [Fin 0, Fin 0, Fin 1,  Fin 0, Fin 0, Fin 1,  Fin 0, Fin 0, Fin 1] 3 False) (Some 0) = Vector3 (Fin 0) (Fin 0) (Fin 1)"
 "fromBufferAttribute (BufferAttribute_new [Fin 0, Fin 0, Fin 1,  Fin 0, Fin 0, Fin 1,  Fin 0, Fin 0, Fin 1] 3 False) (Some (Suc 0)) = Vector3 (Fin 0) (Fin 0) (Fin 1)"
 "fromBufferAttribute (BufferAttribute_new [Fin 0, Fin 0, Fin 1,  Fin 0, Fin 0, Fin 1,  Fin 0, Fin 0, Fin 1] 3 False) (Some 2) = Vector3 (Fin 0) (Fin 0) (Fin 1)"
  by code_simp+

lemma unit_normals_write: "setXYZ (BufferAttribute_new [Fin 0, Fin 0, Fin 1,  Fin 0, Fin 0, Fin 1,  Fin 0, Fin 0, Fin 1] 3 False) (Some 0) (Fin 0) (Fin 0) (Fin 1) = BufferAttribute_new [Fin 0, Fin 0, Fin 1,  Fin 0, Fin 0, Fin 1,  Fin 0, Fin 0, Fin 1] 3 False"
 "setXYZ (BufferAttribute_new [Fin 0, Fin 0, Fin 1,  Fin 0, Fin 0, Fin 1,  Fin 0, Fin 0, Fin 1] 3 False) (Some (Suc 0)) (Fin 0) (Fin 0) (Fin 1) = BufferAttribute_new [Fin 0, Fin 0, Fin 1,  Fin 0, Fin 0, Fin 1,  Fin 0, Fin 0, Fin 1] 3 False"
 "setXYZ (BufferAttribute_new [Fin 0, Fin 0, Fin 1,  Fin 0, Fin 0, Fin 1,  Fin 0, Fin 0, Fin 1] 3 False) (Some 2) (Fin 0) (Fin 0) (Fin 1) = BufferAttribute_new [Fin 0, Fin 0, Fin 1,  Fin 0, Fin 0, Fin 1,  Fin 0, Fin 0, Fin 1] 3 False"
  by code_simp+

lemma unit_normals_normalized: "normalizeNormals (BufferAttribute_new [Fin 0, Fin 0, Fin 1,  Fin 0, Fin 0, Fin 1,  Fin 0, Fin 0, Fin 1] 3 False)
   = BufferAttribute_new [Fin 0, Fin 0, Fin 1,  Fin 0, Fin 0, Fin 1,  Fin 0, Fin 0, Fin 1] 3 False"
  unfolding normalizeNormals_def unit_normals_count upt_3
  by (simp add: unit_normals_read normalize_unit_z unit_normals_write Let_def)

lemma staleGeometry_wellFormed: "wellFormedGeometry staleGeometry"
  by (auto simp add: wellFormedGeometry_def staleGeometry_def setAttribute_def setIndex_def
      BufferGeometry_new_def ran_def wellFormed_def staleNormals_def trianglePositions_def
      BufferAttribute_new_def split: if_splits)


lemma upto3_triangle: "upto3 0 (length [0::nat, 1, 2]) = [0]"
  by (simp add: upto3_def)

lemma staleRecomputed:
  "recomputeNormals trianglePositions (Some [0, 1, 2]) (zeroNormals staleNormals)
   = BufferAttribute_new [Fin 0, Fin 0, Fin 1,  Fin 0, Fin 0, Fin 1,  Fin 0, Fin 0, Fin 1] 3 False"
  unfolding recomputeNormals_def stale_zeroed
  by (simp only: option.case upto3_triangle fold_simps id_apply o_apply stale_step unit_normals_normalized)

lemma staleGeometry_normals:
  "map_option array (attributes (fst (computeVertexNormals staleGeometry)) ''normal'')
   = Some [Fin 0, Fin 0, Fin 1,  Fin 0, Fin 0, Fin 1,  Fin 0, Fin 0, Fin 1]"
proof -
  have p: "attributes staleGeometry ''position'' = Some trianglePositions"
    and n: "attributes staleGeometry ''normal'' = Some staleNormals"
    and i: "index staleGeometry = Some [0, 1, 2]"
    by (simp_all add: staleGeometry_def setAttribute_def setIndex_def)
  have "computeVertexNormals staleGeometry =
      (setAttribute ''normal''
         ((BufferAttribute_new [Fin 0, Fin 0, Fin 1,  Fin 0, Fin 0, Fin 1,  Fin 0, Fin 0, Fin 1] 3 False)
            \<lparr>needsUpdate := True\<rparr>) staleGeometry, [])"
    by (simp only: computeVertexNormals_eq [OF p] n i option.case staleRecomputed)
  then show ?thesis by (simp add: setAttribute_def BufferAttribute_new_def)
qed

text \<open>
  C6. On a geometry whose attributes satisfy the data model's invariant, a second call of
  \<^verbatim>\<open>computeVertexNormals\<close> right after a first one leaves the geometry, and so its normal
  attribute, as the first call left it: the second call resets every cell the first one
  wrote before it recomputes.
\<close>

theorem computeVertexNormals_idempotent:
  assumes "wellFormedGeometry g"
  shows "computeVertexNormals (fst (computeVertexNormals g)) = computeVertexNormals g"
  using assms by (rule computeVertexNormals_twice)

theorem computeVertexNormals_idempotent_witness:
  "wellFormedGeometry staleGeometry
   \<and> map_option array (attributes staleGeometry ''normal'')
     = Some [Fin 5, Fin 0, Fin 0, Fin 0, NaN, Fin 0, Fin 1, Fin 1, Fin 1]
   \<and> map_option array (attributes (fst (computeVertexNormals staleGeometry)) ''normal'')
     = Some [Fin 0, Fin 0, Fin 1,  Fin 0, Fin 0, Fin 1,  Fin 0, Fin 0, Fin 1]
   \<and> computeVertexNormals (fst (computeVertexNormals staleGeometry))
     = computeVertexNormals staleGeometry"
proof -
  have "map_option array (attributes staleGeometry ''normal'')
     = Some [Fin 5, Fin 0, Fin 0, Fin 0, NaN, Fin 0, Fin 1, Fin 1, Fin 1]"
    by (simp add: staleGeometry_def setAttribute_def staleNormals_def BufferAttribute_new_def)
  with computeVertexNormals_idempotent [OF staleGeometry_wellFormed] staleGeometry_wellFormed
    staleGeometry_normals
  show ?thesis by simp
qed

section \<open>Bounding volumes of finite data\<close>

lemma num_le_refl: "\<not> isNaN a \<Longrightarrow> num_le a a"
  by (cases a) simp_all

lemma num_le_trans: "num_le a b \<Longrightarrow> num_le b c \<Longrightarrow> num_le a c"
  by (cases a; cases b; cases c) simp_all

lemma Math_min_le:
  "\<not> isNaN a \<Longrightarrow> \<not> isNaN b \<Longrightarrow>
   num_le (Math_min a b) a \<and> num_le (Math_min a b) b \<and> \<not> isNaN (Math_min a b)"
  by (cases a; cases b) (simp_all add: Math_min_def)

lemma Math_max_ge:
  "\<not> isNaN a \<Longrightarrow> \<not> isNaN b \<Longrightarrow>
   num_le a (Math_max a b) \<and> num_le b (Math_max a b) \<and> \<not> isNaN (Math_max a b)"
  by (cases a; cases b) (simp_all add: Math_max_def)

lemma num_add_finite_noNaN: "\<not> isNaN a \<Longrightarrow> isFinite c \<Longrightarrow> \<not> isNaN (num_add a c)"
  by (cases a; cases c) simp_all

lemma num_add_mono_lower:
  "num_le a x \<Longrightarrow> num_le c y \<Longrightarrow> isFinite x \<Longrightarrow> isFinite y \<Longrightarrow> isFinite c \<Longrightarrow>
   num_le (num_add a c) (num_add y x)"
  by (cases a; cases x; cases c; cases y) simp_all

lemma num_add_mono_upper:
  "num_le x a \<Longrightarrow> num_le y c \<Longrightarrow> isFinite x \<Longrightarrow> isFinite y \<Longrightarrow> isFinite c \<Longrightarrow>
   num_le (num_add y x) (num_add a c)"
  by (cases a; cases x; cases c; cases y) simp_all

lemma isFinite_noNaN: "isFinite a \<Longrightarrow> \<not> isNaN a"
  by (cases a) simp_all

text \<open>Expanding a box by a point.\<close>

lemma expandByPoint_noNaN:
  "noNaNBox b \<Longrightarrow> noNaNVector q \<Longrightarrow> noNaNBox (expandByPoint b q)"
  by (simp add: noNaNBox_def noNaNVector_def expandByPoint_def vec_min_def vec_max_def
      Math_min_le Math_max_ge)

lemma expandByPoint_contains:
  "noNaNBox b \<Longrightarrow> noNaNVector q \<Longrightarrow> containsPoint (expandByPoint b q) q"
  by (simp add: noNaNBox_def noNaNVector_def expandByPoint_def vec_min_def vec_max_def
      containsPoint_def Math_min_le Math_max_ge)

lemma expandByPoint_mono:
  assumes "noNaNBox b" "noNaNVector q" "containsPoint b v"
  shows "containsPoint (expandByPoint b q) v"
proof -
  have lo: "num_le (Math_min m c) w" if "\<not> isNaN m" "\<not> isNaN c" "num_le m w" for m c w
    using Math_min_le [OF that(1,2)] that(3) num_le_trans by blast
  have hi: "num_le w (Math_max m c)" if "\<not> isNaN m" "\<not> isNaN c" "num_le w m" for m c w
    using Math_max_ge [OF that(1,2)] that(3) num_le_trans by blast
  from assms show ?thesis
    by (simp add: noNaNBox_def noNaNVector_def expandByPoint_def vec_min_def vec_max_def
        containsPoint_def lo hi)
qed

lemma finiteVector_noNaN: "finiteVector v \<Longrightarrow> noNaNVector v"
  by (simp add: finiteVector_def noNaNVector_def isFinite_noNaN)

lemma makeEmpty_noNaN: "noNaNBox makeEmpty"
  by (simp add: noNaNBox_def noNaNVector_def makeEmpty_def)

text \<open>Fitting a box to an attribute whose vertices are finite.\<close>

lemma fit_fold:
  assumes "\<forall>i<m. finiteVector (fromBufferAttribute a (Some i))"
  shows "noNaNBox (fold (\<lambda>i b. expandByPoint b (fromBufferAttribute a (Some i))) [0..<m] makeEmpty)
    \<and> (\<forall>i<m. containsPoint
          (fold (\<lambda>i b. expandByPoint b (fromBufferAttribute a (Some i))) [0..<m] makeEmpty)
          (fromBufferAttribute a (Some i)))"
  using assms
proof (induction m)
  case 0
  show ?case by (simp add: makeEmpty_noNaN)
next
  case (Suc m)
  let ?b = "fold (\<lambda>i b. expandByPoint b (fromBufferAttribute a (Some i))) [0..<m] makeEmpty"
  let ?q = "fromBufferAttribute a (Some m)"
  from Suc have b: "noNaNBox ?b" and c: "\<forall>i<m. containsPoint ?b (fromBufferAttribute a (Some i))"
    by simp_all
  from Suc.prems have q: "noNaNVector ?q" by (simp add: finiteVector_noNaN)
  have "containsPoint (expandByPoint ?b ?q) (fromBufferAttribute a (Some i))" if "i < Suc m" for i
  proof (cases "i = m")
    case True
    then show ?thesis using expandByPoint_contains [OF b q] by simp
  next
    case False
    with that have "i < m" by simp
    with c show ?thesis using expandByPoint_mono [OF b q] by simp
  qed
  then show ?case using expandByPoint_noNaN [OF b q] by simp
qed

lemma setFromBufferAttribute_fits:
  assumes "finiteAttribute a"
  shows "noNaNBox (setFromBufferAttribute a)"
    and "i < attr_count a \<Longrightarrow> containsPoint (setFromBufferAttribute a) (fromBufferAttribute a (Some i))"
  using fit_fold [of "attr_count a" a] assms
  by (simp_all add: setFromBufferAttribute_def finiteAttribute_def)


lemma Math_min_finite: "isFinite a \<Longrightarrow> isFinite b \<Longrightarrow> isFinite (Math_min a b)"
  by (cases a; cases b) (simp_all add: Math_min_def)

lemma Math_max_finite: "isFinite a \<Longrightarrow> isFinite b \<Longrightarrow> isFinite (Math_max a b)"
  by (cases a; cases b) (simp_all add: Math_max_def)

lemma Math_min_PInf: "isFinite a \<Longrightarrow> Math_min PInf a = a"
  by (cases a) (simp_all add: Math_min_def)

lemma Math_max_NInf: "isFinite a \<Longrightarrow> Math_max NInf a = a"
  by (cases a) (simp_all add: Math_max_def)

lemma num_add_finite: "isFinite a \<Longrightarrow> isFinite b \<Longrightarrow> isFinite (num_add a b)"
  by (cases a; cases b) simp_all

lemma expandByPoint_empty:
  "finiteVector q \<Longrightarrow> finiteBox (expandByPoint makeEmpty q)"
  by (simp add: finiteBox_def finiteVector_def expandByPoint_def makeEmpty_def vec_min_def
      vec_max_def Math_min_PInf Math_max_NInf)

lemma expandByPoint_finite:
  "finiteBox b \<Longrightarrow> finiteVector q \<Longrightarrow> finiteBox (expandByPoint b q)"
  by (simp add: finiteBox_def finiteVector_def expandByPoint_def vec_min_def vec_max_def
      Math_min_finite Math_max_finite)

lemma fit_fold_finite:
  assumes "\<forall>i<Suc m. finiteVector (fromBufferAttribute a (Some i))"
  shows "finiteBox (fold (\<lambda>i b. expandByPoint b (fromBufferAttribute a (Some i))) [0..<Suc m] makeEmpty)"
  using assms
proof (induction m)
  case 0
  then show ?case by (simp add: expandByPoint_empty)
next
  case (Suc m)
  then have "finiteBox (fold (\<lambda>i b. expandByPoint b (fromBufferAttribute a (Some i))) [0..<Suc m] makeEmpty)"
    by simp
  moreover from Suc.prems have "finiteVector (fromBufferAttribute a (Some (Suc m)))" by simp
  ultimately show ?case using expandByPoint_finite by simp
qed

lemma setFromBufferAttribute_finite:
  assumes "finiteAttribute a" and "0 < attr_count a"
  shows "finiteBox (setFromBufferAttribute a)"
proof -
  from assms(2) obtain m where m: "attr_count a = Suc m" by (cases "attr_count a") simp_all
  with assms(1) have "\<forall>i<Suc m. finiteVector (fromBufferAttribute a (Some i))"
    by (simp add: finiteAttribute_def)
  from fit_fold_finite [OF this] m show ?thesis by (simp add: setFromBufferAttribute_def)
qed

text \<open>One axis of a round of the morph-target loop in relative mode.\<close>

lemma relative_axis:
  assumes "\<not> isNaN lo" "\<not> isNaN hi" "isFinite mlo" "isFinite mhi"
  defines "hi1 \<equiv> Math_max hi (num_add lo mlo)"
  defines "lo2 \<equiv> Math_min (Math_min lo (num_add lo mlo)) (num_add hi1 mhi)"
  defines "hi2 \<equiv> Math_max hi1 (num_add hi1 mhi)"
  shows "\<not> isNaN lo2" "\<not> isNaN hi2"
    and "num_le lo w \<Longrightarrow> num_le lo2 w"
    and "num_le w hi \<Longrightarrow> num_le w hi2"
    and "num_le lo x \<Longrightarrow> num_le x hi \<Longrightarrow> num_le mlo y \<Longrightarrow> num_le y mhi \<Longrightarrow>
         isFinite x \<Longrightarrow> isFinite y \<Longrightarrow>
         num_le lo2 (num_add y x) \<and> num_le (num_add y x) hi2"
proof -
  have s1: "\<not> isNaN (num_add lo mlo)" using assms(1,3) by (rule num_add_finite_noNaN)
  note m1 = Math_min_le [OF assms(1) s1]
  note h1 = Math_max_ge [OF assms(2) s1]
  have h1n: "\<not> isNaN hi1" using h1 by (simp add: hi1_def)
  have s2: "\<not> isNaN (num_add hi1 mhi)" using h1n assms(4) by (rule num_add_finite_noNaN)
  have m1n: "\<not> isNaN (Math_min lo (num_add lo mlo))" using m1 by simp
  note m2 = Math_min_le [OF m1n s2]
  note h2 = Math_max_ge [OF h1n s2]
  show "\<not> isNaN lo2" using m2 by (simp add: lo2_def)
  show "\<not> isNaN hi2" using h2 by (simp add: hi2_def)
  have lo2_lo: "num_le lo2 lo" using m2 m1 num_le_trans unfolding lo2_def by blast
  have hi_hi2: "num_le hi hi2" using h2 h1 num_le_trans unfolding hi2_def hi1_def by blast
  show "num_le lo w \<Longrightarrow> num_le lo2 w" using lo2_lo num_le_trans by blast
  show "num_le w hi \<Longrightarrow> num_le w hi2" using hi_hi2 num_le_trans by blast
  show "num_le lo2 (num_add y x) \<and> num_le (num_add y x) hi2"
    if "num_le lo x" "num_le x hi" "num_le mlo y" "num_le y mhi" "isFinite x" "isFinite y"
  proof
    have "num_le (num_add lo mlo) (num_add y x)"
      using that(1,3,5,6) assms(3) by (rule num_add_mono_lower)
    moreover have "num_le lo2 (num_add lo mlo)"
      using m2 m1 num_le_trans unfolding lo2_def by blast
    ultimately show "num_le lo2 (num_add y x)" using num_le_trans by blast
    have "num_le x hi1" using that(2) h1 num_le_trans unfolding hi1_def by blast
    then have "num_le (num_add y x) (num_add hi1 mhi)"
      using that(4,5,6) assms(4) by (rule num_add_mono_upper)
    moreover have "num_le (num_add hi1 mhi) hi2" using h2 by (simp add: hi2_def)
    ultimately show "num_le (num_add y x) hi2" using num_le_trans by blast
  qed
qed

text \<open>One axis of a round of the morph-target loop in absolute mode.\<close>

lemma absolute_axis:
  assumes "\<not> isNaN lo" "\<not> isNaN hi" "\<not> isNaN mlo" "\<not> isNaN mhi"
  defines "lo2 \<equiv> Math_min (Math_min lo mlo) mhi"
  defines "hi2 \<equiv> Math_max (Math_max hi mlo) mhi"
  shows "\<not> isNaN lo2" "\<not> isNaN hi2"
    and "num_le lo w \<Longrightarrow> num_le lo2 w"
    and "num_le w hi \<Longrightarrow> num_le w hi2"
    and "num_le mlo y \<Longrightarrow> num_le lo2 y"
    and "num_le y mhi \<Longrightarrow> num_le y hi2"
proof -
  note m1 = Math_min_le [OF assms(1,3)]
  note h1 = Math_max_ge [OF assms(2,3)]
  have m1n: "\<not> isNaN (Math_min lo mlo)" using m1 by simp
  have h1n: "\<not> isNaN (Math_max hi mlo)" using h1 by simp
  note m2 = Math_min_le [OF m1n assms(4)]
  note h2 = Math_max_ge [OF h1n assms(4)]
  show "\<not> isNaN lo2" using m2 by (simp add: lo2_def)
  show "\<not> isNaN hi2" using h2 by (simp add: hi2_def)
  show "num_le lo w \<Longrightarrow> num_le lo2 w" using m1 m2 num_le_trans unfolding lo2_def by blast
  show "num_le w hi \<Longrightarrow> num_le w hi2" using h1 h2 num_le_trans unfolding hi2_def by blast
  show "num_le mlo y \<Longrightarrow> num_le lo2 y" using m1 m2 num_le_trans unfolding lo2_def by blast
  show "num_le y mhi \<Longrightarrow> num_le y hi2" using h2 num_le_trans unfolding hi2_def by blast
qed


lemma expandByMorphTarget_relative:
  assumes "noNaNBox b" "finiteBox mb"
  shows "noNaNBox (expandByMorphTarget True b mb)"
    and "containsPoint b v \<Longrightarrow> containsPoint (expandByMorphTarget True b mb) v"
    and "containsPoint b base \<Longrightarrow> containsPoint mb delta \<Longrightarrow> finiteVector base \<Longrightarrow>
         finiteVector delta \<Longrightarrow>
         containsPoint (expandByMorphTarget True b mb) (addVectors delta base)"
proof -
  from assms have
    x: "\<not> isNaN (vx (box_min b))" "\<not> isNaN (vx (box_max b))"
       "isFinite (vx (box_min mb))" "isFinite (vx (box_max mb))" and
    y: "\<not> isNaN (vy (box_min b))" "\<not> isNaN (vy (box_max b))"
       "isFinite (vy (box_min mb))" "isFinite (vy (box_max mb))" and
    z: "\<not> isNaN (vz (box_min b))" "\<not> isNaN (vz (box_max b))"
       "isFinite (vz (box_min mb))" "isFinite (vz (box_max mb))"
    by (simp_all add: noNaNBox_def noNaNVector_def finiteBox_def finiteVector_def)
  note ax = relative_axis [OF x] and ay = relative_axis [OF y] and az = relative_axis [OF z]
  show "noNaNBox (expandByMorphTarget True b mb)"
    using ax(1,2) ay(1,2) az(1,2)
    by (simp add: expandByMorphTarget_def expandByPoint_def vec_min_def vec_max_def
        addVectors_def noNaNBox_def noNaNVector_def Let_def)
  show "containsPoint (expandByMorphTarget True b mb) v" if "containsPoint b v"
    using that ax(3,4) [of "vx v"] ay(3,4) [of "vy v"] az(3,4) [of "vz v"]
    by (simp add: expandByMorphTarget_def expandByPoint_def vec_min_def vec_max_def
        addVectors_def containsPoint_def Let_def)
  show "containsPoint (expandByMorphTarget True b mb) (addVectors delta base)"
    if "containsPoint b base" "containsPoint mb delta" "finiteVector base" "finiteVector delta"
    using that ax(5) [of "vx base" "vx delta"] ay(5) [of "vy base" "vy delta"]
      az(5) [of "vz base" "vz delta"]
    by (simp add: expandByMorphTarget_def expandByPoint_def vec_min_def vec_max_def
        addVectors_def containsPoint_def finiteVector_def Let_def)
qed

lemma expandByMorphTarget_absolute:
  assumes "noNaNBox b" "noNaNBox mb"
  shows "noNaNBox (expandByMorphTarget False b mb)"
    and "containsPoint b v \<Longrightarrow> containsPoint (expandByMorphTarget False b mb) v"
    and "containsPoint mb v \<Longrightarrow> containsPoint (expandByMorphTarget False b mb) v"
proof -
  from assms have
    x: "\<not> isNaN (vx (box_min b))" "\<not> isNaN (vx (box_max b))"
       "\<not> isNaN (vx (box_min mb))" "\<not> isNaN (vx (box_max mb))" and
    y: "\<not> isNaN (vy (box_min b))" "\<not> isNaN (vy (box_max b))"
       "\<not> isNaN (vy (box_min mb))" "\<not> isNaN (vy (box_max mb))" and
    z: "\<not> isNaN (vz (box_min b))" "\<not> isNaN (vz (box_max b))"
       "\<not> isNaN (vz (box_min mb))" "\<not> isNaN (vz (box_max mb))"
    by (simp_all add: noNaNBox_def noNaNVector_def)
  note ax = absolute_axis [OF x] and ay = absolute_axis [OF y] and az = absolute_axis [OF z]
  show "noNaNBox (expandByMorphTarget False b mb)"
    using ax(1,2) ay(1,2) az(1,2)
    by (simp add: expandByMorphTarget_def expandByPoint_def vec_min_def vec_max_def
        noNaNBox_def noNaNVector_def)
  show "containsPoint (expandByMorphTarget False b mb) v" if "containsPoint b v"
    using that ax(3,4) [of "vx v"] ay(3,4) [of "vy v"] az(3,4) [of "vz v"]
    by (simp add: expandByMorphTarget_def expandByPoint_def vec_min_def vec_max_def
        containsPoint_def)
  show "containsPoint (expandByMorphTarget False b mb) v" if "containsPoint mb v"
    using that ax(5,6) [of "vx v"] ay(5,6) [of "vy v"] az(5,6) [of "vz v"]
    by (simp add: expandByMorphTarget_def expandByPoint_def vec_min_def vec_max_def
        containsPoint_def)
qed


lemma finiteBox_noNaN: "finiteBox b \<Longrightarrow> noNaNBox b"
  by (simp add: finiteBox_def noNaNBox_def finiteVector_noNaN)

lemma morph_step:
  assumes b: "noNaNBox b" and m: "finiteAttribute m" and r: "rel \<longrightarrow> 0 < attr_count m"
  shows "noNaNBox (expandByMorphTarget rel b (setFromBufferAttribute m))"
    and "containsPoint b v \<Longrightarrow> containsPoint (expandByMorphTarget rel b (setFromBufferAttribute m)) v"
    and "j < attr_count m \<Longrightarrow> (rel \<Longrightarrow> finiteVector base \<and> containsPoint b base) \<Longrightarrow>
         containsPoint (expandByMorphTarget rel b (setFromBufferAttribute m))
           (if rel then addVectors (fromBufferAttribute m (Some j)) base
            else fromBufferAttribute m (Some j))"
proof -
  note fit = setFromBufferAttribute_fits [OF m]
  show "noNaNBox (expandByMorphTarget rel b (setFromBufferAttribute m))"
  proof (cases rel)
    case True
    with r m have "finiteBox (setFromBufferAttribute m)" by (simp add: setFromBufferAttribute_finite)
    with True show ?thesis using expandByMorphTarget_relative(1) [OF b] by simp
  next
    case False
    then show ?thesis using expandByMorphTarget_absolute(1) [OF b fit(1)] by simp
  qed
  show "containsPoint (expandByMorphTarget rel b (setFromBufferAttribute m)) v"
    if "containsPoint b v"
  proof (cases rel)
    case True
    with r m have "finiteBox (setFromBufferAttribute m)" by (simp add: setFromBufferAttribute_finite)
    with True that show ?thesis using expandByMorphTarget_relative(2) [OF b] by simp
  next
    case False
    with that show ?thesis using expandByMorphTarget_absolute(2) [OF b fit(1)] by simp
  qed
  show "containsPoint (expandByMorphTarget rel b (setFromBufferAttribute m))
           (if rel then addVectors (fromBufferAttribute m (Some j)) base
            else fromBufferAttribute m (Some j))"
    if j: "j < attr_count m" and base: "rel \<Longrightarrow> finiteVector base \<and> containsPoint b base"
  proof (cases rel)
    case True
    with r m have f: "finiteBox (setFromBufferAttribute m)" by (simp add: setFromBufferAttribute_finite)
    from m j have d: "finiteVector (fromBufferAttribute m (Some j))" by (simp add: finiteAttribute_def)
    from True base have "finiteVector base" "containsPoint b base" by simp_all
    with expandByMorphTarget_relative(3) [OF b f _ fit(2) [OF j] _ d, of base] True
    show ?thesis by simp
  next
    case False
    with expandByMorphTarget_absolute(3) [OF b fit(1) fit(2) [OF j]] show ?thesis by simp
  qed
qed

lemma morph_fold:
  assumes "noNaNBox b" and "\<forall>m\<in>set ms. finiteAttribute m \<and> (rel \<longrightarrow> 0 < attr_count m)"
  shows "noNaNBox (fold (\<lambda>m b. expandByMorphTarget rel b (setFromBufferAttribute m)) ms b)
    \<and> (\<forall>v. containsPoint b v \<longrightarrow>
          containsPoint (fold (\<lambda>m b. expandByMorphTarget rel b (setFromBufferAttribute m)) ms b) v)
    \<and> (\<forall>m\<in>set ms. \<forall>j<attr_count m. \<forall>base. (rel \<longrightarrow> finiteVector base \<and> containsPoint b base) \<longrightarrow>
          containsPoint (fold (\<lambda>m b. expandByMorphTarget rel b (setFromBufferAttribute m)) ms b)
            (if rel then addVectors (fromBufferAttribute m (Some j)) base
             else fromBufferAttribute m (Some j)))"
  using assms
proof (induction ms arbitrary: b)
  case Nil
  then show ?case by simp
next
  case (Cons m ms)
  let ?b' = "expandByMorphTarget rel b (setFromBufferAttribute m)"
  let ?F = "fold (\<lambda>m b. expandByMorphTarget rel b (setFromBufferAttribute m)) ms"
  from Cons.prems have m: "finiteAttribute m" and r: "rel \<longrightarrow> 0 < attr_count m"
    and rest: "\<forall>m\<in>set ms. finiteAttribute m \<and> (rel \<longrightarrow> 0 < attr_count m)"
    by simp_all
  note st = morph_step [OF Cons.prems(1) m r]
  note ih = Cons.IH [OF st(1) rest]
  have mono: "containsPoint (?F ?b') v" if "containsPoint b v" for v
    using ih st(2) [OF that] by blast
  have head: "containsPoint (?F ?b')
            (if rel then addVectors (fromBufferAttribute m (Some j)) base
             else fromBufferAttribute m (Some j))"
    if "j < attr_count m" "rel \<longrightarrow> finiteVector base \<and> containsPoint b base" for j base
    using ih st(3) [OF that(1), of base] that(2) by blast
  have tail: "containsPoint (?F ?b')
            (if rel then addVectors (fromBufferAttribute m' (Some j)) base
             else fromBufferAttribute m' (Some j))"
    if "m' \<in> set ms" "j < attr_count m'" "rel \<longrightarrow> finiteVector base \<and> containsPoint b base"
    for m' j base
  proof -
    from that(3) st(2) have "rel \<longrightarrow> finiteVector base \<and> containsPoint ?b' base" by blast
    with ih that(1,2) show ?thesis by blast
  qed
  from ih mono head tail show ?case by auto
qed


lemma fitPositionBox_bounds:
  assumes p: "finiteAttribute p"
    and ms: "\<forall>ms. morph = Some ms \<longrightarrow> (\<forall>m\<in>set ms. finiteAttribute m \<and> (rel \<longrightarrow> 0 < attr_count m))"
  shows "noNaNBox (fitPositionBox p morph rel)"
    and "i < attr_count p \<Longrightarrow> containsPoint (fitPositionBox p morph rel) (fromBufferAttribute p (Some i))"
    and "morph = Some ts \<Longrightarrow> m \<in> set ts \<Longrightarrow> j < attr_count m \<Longrightarrow> (rel \<longrightarrow> j < attr_count p) \<Longrightarrow>
         containsPoint (fitPositionBox p morph rel) (morphVertex rel p m j)"
proof -
  note fit = setFromBufferAttribute_fits [OF p]
  show "noNaNBox (fitPositionBox p morph rel)"
  proof (cases morph)
    case None
    then show ?thesis using fit(1) by (simp add: fitPositionBox_def)
  next
    case (Some ts')
    with ms have "\<forall>m\<in>set ts'. finiteAttribute m \<and> (rel \<longrightarrow> 0 < attr_count m)" by simp
    from morph_fold [OF fit(1) this] Some show ?thesis by (simp add: fitPositionBox_def)
  qed
  show "containsPoint (fitPositionBox p morph rel) (fromBufferAttribute p (Some i))"
    if "i < attr_count p"
  proof (cases morph)
    case None
    then show ?thesis using fit(2) [OF that] by (simp add: fitPositionBox_def)
  next
    case (Some ts')
    with ms have "\<forall>m\<in>set ts'. finiteAttribute m \<and> (rel \<longrightarrow> 0 < attr_count m)" by simp
    from morph_fold [OF fit(1) this] fit(2) [OF that] Some show ?thesis
      by (simp add: fitPositionBox_def)
  qed
  show "containsPoint (fitPositionBox p morph rel) (morphVertex rel p m j)"
    if t: "morph = Some ts" "m \<in> set ts" "j < attr_count m" "rel \<longrightarrow> j < attr_count p"
  proof -
    from ms t(1) have "\<forall>m\<in>set ts. finiteAttribute m \<and> (rel \<longrightarrow> 0 < attr_count m)" by simp
    note mf = morph_fold [OF fit(1) this]
    have base: "rel \<longrightarrow> finiteVector (fromBufferAttribute p (Some j))
        \<and> containsPoint (setFromBufferAttribute p) (fromBufferAttribute p (Some j))"
      using t(4) p fit(2) by (simp add: finiteAttribute_def)
    from mf t(2,3) base
    have "containsPoint (fold (\<lambda>m b. expandByMorphTarget rel b (setFromBufferAttribute m)) ts
              (setFromBufferAttribute p))
            (if rel then addVectors (fromBufferAttribute m (Some j)) (fromBufferAttribute p (Some j))
             else fromBufferAttribute m (Some j))"
      by blast
    with t(1) show ?thesis by (simp add: fitPositionBox_def morphVertex_def Let_def)
  qed
qed

lemma computeBoundingBox_readable:
  "attributes g ''position'' = Some p \<Longrightarrow> \<not> isGLBufferAttribute p \<Longrightarrow>
   boundingBox (fst (computeBoundingBox g))
     = Some (fitPositionBox p (morphAttributes g ''position'') (morphTargetsRelative g))"
  by (simp add: computeBoundingBox_def Let_def)

lemma computeBoundingBox_finite_data:
  assumes "attributes g ''position'' = Some p" and "\<not> isGLBufferAttribute p"
    and "finitePositions g"
    and "morphTargetsRelative g \<longrightarrow> morphTargetsNonEmpty g"
  shows "\<exists>b. boundingBox (fst (computeBoundingBox g)) = Some b
    \<and> (\<forall>i<attr_count p. containsPoint b (fromBufferAttribute p (Some i)))
    \<and> (\<forall>ms. morphAttributes g ''position'' = Some ms \<longrightarrow>
          (\<forall>m\<in>set ms. \<forall>j<attr_count m. (morphTargetsRelative g \<longrightarrow> j < attr_count p) \<longrightarrow>
             containsPoint b (morphVertex (morphTargetsRelative g) p m j)))"
proof -
  from assms(1,3) have p: "finiteAttribute p" by (simp add: finitePositions_def)
  have ms: "\<forall>ms. morphAttributes g ''position'' = Some ms \<longrightarrow>
      (\<forall>m\<in>set ms. finiteAttribute m \<and> (morphTargetsRelative g \<longrightarrow> 0 < attr_count m))"
    using assms(3,4) by (simp add: finitePositions_def morphTargetsNonEmpty_def)
  note fb = fitPositionBox_bounds [OF p ms]
  show ?thesis
    unfolding computeBoundingBox_readable [OF assms(1,2)]
    using fb(2) fb(3) by blast
qed


text \<open>Finite data give a finite box, a finite centre and finite squared distances.\<close>

lemma expandByMorphTarget_finite:
  "finiteBox b \<Longrightarrow> finiteBox mb \<Longrightarrow> finiteBox (expandByMorphTarget rel b mb)"
  by (simp add: expandByMorphTarget_def expandByPoint_def vec_min_def vec_max_def addVectors_def
      finiteBox_def finiteVector_def Let_def Math_min_finite Math_max_finite num_add_finite)

lemma morph_fold_finite:
  "finiteBox b \<Longrightarrow> \<forall>m\<in>set ms. finiteAttribute m \<and> 0 < attr_count m \<Longrightarrow>
   finiteBox (fold (\<lambda>m b. expandByMorphTarget rel b (setFromBufferAttribute m)) ms b)"
  by (induction ms arbitrary: b)
    (simp_all add: expandByMorphTarget_finite setFromBufferAttribute_finite)

lemma fitPositionBox_finite:
  assumes "finiteAttribute p" "0 < attr_count p"
    and "\<forall>ms. morph = Some ms \<longrightarrow> (\<forall>m\<in>set ms. finiteAttribute m \<and> 0 < attr_count m)"
  shows "finiteBox (fitPositionBox p morph rel)"
  using assms
  by (cases morph) (simp_all add: fitPositionBox_def setFromBufferAttribute_finite morph_fold_finite)

lemma num_mul_finite: "isFinite a \<Longrightarrow> isFinite b \<Longrightarrow> isFinite (num_mul a b)"
  by (cases a; cases b) simp_all

lemma getCenter_finite: "finiteBox b \<Longrightarrow> finiteVector (getCenter b)"
  by (simp add: getCenter_def finiteBox_def finiteVector_def multiplyScalar_def addVectors_def
      num_mul_finite num_add_finite)

lemma addVectors_finite: "finiteVector a \<Longrightarrow> finiteVector b \<Longrightarrow> finiteVector (addVectors a b)"
  by (simp add: finiteVector_def addVectors_def num_add_finite)

lemma isFinite_Fin: "isFinite a \<Longrightarrow> \<exists>r. a = Fin r"
  by (cases a) simp_all

lemma squared_distance_axis:
  "isFinite a \<Longrightarrow> isFinite b \<Longrightarrow> \<exists>r\<ge>0. num_mul (num_sub a b) (num_sub a b) = Fin r"
  by (cases a; cases b) (simp_all add: num_sub_def)

lemma num_add_nonneg: "\<exists>r\<ge>0. a = Fin r \<Longrightarrow> \<exists>r\<ge>0. b = Fin r \<Longrightarrow> \<exists>r\<ge>0. num_add a b = Fin r"
  by auto

lemma distanceToSquared_finite:
  assumes "finiteVector a" "finiteVector b"
  shows "\<exists>r\<ge>0. distanceToSquared a b = Fin r"
  using assms unfolding distanceToSquared_def Let_def finiteVector_def
  by (intro num_add_nonneg squared_distance_axis) simp_all

text \<open>The running maximum over non-negative finite numbers.\<close>

lemma fold_max:
  assumes "\<forall>d\<in>set ds. \<exists>r\<ge>0. d = Fin r" and "\<exists>r\<ge>0. acc = Fin r"
  shows "(\<exists>r\<ge>0. fold (\<lambda>d m. Math_max m d) ds acc = Fin r)
    \<and> num_le acc (fold (\<lambda>d m. Math_max m d) ds acc)
    \<and> (\<forall>d\<in>set ds. num_le d (fold (\<lambda>d m. Math_max m d) ds acc))
    \<and> (fold (\<lambda>d m. Math_max m d) ds acc = acc \<or> fold (\<lambda>d m. Math_max m d) ds acc \<in> set ds)"
  using assms
proof (induction ds arbitrary: acc)
  case Nil
  then show ?case by auto
next
  case (Cons d ds)
  from Cons.prems obtain r a where r: "0 \<le> r" "d = Fin r" and a: "0 \<le> a" "acc = Fin a" by auto
  let ?acc' = "Math_max acc d"
  have acc': "?acc' = Fin (max a r)" using r a by (auto simp add: Math_max_def max_def)
  then have "\<exists>r\<ge>0. ?acc' = Fin r" using r a by (auto simp add: max_def)
  moreover from Cons.prems have "\<forall>d\<in>set ds. \<exists>r\<ge>0. d = Fin r" by simp
  ultimately have ih: "(\<exists>r\<ge>0. fold (\<lambda>d m. Math_max m d) ds ?acc' = Fin r)
    \<and> num_le ?acc' (fold (\<lambda>d m. Math_max m d) ds ?acc')
    \<and> (\<forall>d\<in>set ds. num_le d (fold (\<lambda>d m. Math_max m d) ds ?acc'))
    \<and> (fold (\<lambda>d m. Math_max m d) ds ?acc' = ?acc' \<or> fold (\<lambda>d m. Math_max m d) ds ?acc' \<in> set ds)"
    using Cons.IH by blast
  have le1: "num_le acc ?acc'" and le2: "num_le d ?acc'" using acc' r a by simp_all
  have sel: "?acc' = acc \<or> ?acc' = d" using acc' r a by (auto simp add: max_def)
  from ih le1 have "num_le acc (fold (\<lambda>d m. Math_max m d) ds ?acc')" using num_le_trans by blast
  moreover from ih le2 have "num_le d (fold (\<lambda>d m. Math_max m d) ds ?acc')"
    using num_le_trans by blast
  ultimately show ?case using ih sel by auto
qed

lemma fold_max_attained:
  assumes "\<forall>d\<in>set ds. \<exists>r\<ge>0. d = Fin r" and "ds \<noteq> []"
  shows "(\<exists>r\<ge>0. fold (\<lambda>d m. Math_max m d) ds (Fin 0) = Fin r)
    \<and> (\<forall>d\<in>set ds. num_le d (fold (\<lambda>d m. Math_max m d) ds (Fin 0)))
    \<and> fold (\<lambda>d m. Math_max m d) ds (Fin 0) \<in> set ds"
proof -
  let ?M = "fold (\<lambda>d m. Math_max m d) ds (Fin 0)"
  have "\<exists>r\<ge>0. Fin 0 = Fin (r::real)" by auto
  note f = fold_max [OF assms(1) this]
  have "?M \<in> set ds"
  proof (cases "?M = Fin 0")
    case False
    with f show ?thesis by blast
  next
    case True
    from assms(2) obtain d where d: "d \<in> set ds" by (cases ds) auto
    with assms(1) obtain r where r: "0 \<le> r" "d = Fin r" by blast
    from f d have "num_le d ?M" by blast
    with True r have "r = 0" by simp
    with r True d show ?thesis by simp
  qed
  with f show ?thesis by blast
qed

text \<open>The two passes of the radius computation walk through \<open>sphereVertices\<close>.\<close>

lemma fold_concat_lists: "fold f (concat xss) s = fold (fold f) xss s"
  by (induction xss arbitrary: s) simp_all

lemma maxRadiusSq_eq:
  "maxRadiusSq c p morph rel
   = fold (\<lambda>d m. Math_max m d) (map (distanceToSquared c) (sphereVertices p morph rel)) (Fin 0)"
  by (cases morph)
    (simp_all add: maxRadiusSq_def sphereVertices_def Let_def fold_map fold_concat_lists comp_def)


lemma containsPoint_not_empty: "containsPoint b v \<Longrightarrow> \<not> isEmpty b"
proof -
  have ax: "\<not> num_lt hi lo" if "num_le lo w" "num_le w hi" for lo w hi
    using that by (cases lo; cases w; cases hi) simp_all
  show "containsPoint b v \<Longrightarrow> \<not> isEmpty b"
    unfolding containsPoint_def isEmpty_def using ax by blast
qed

lemma Math_sqrt_mono:
  "\<exists>r\<ge>0. a = Fin r \<Longrightarrow> \<exists>r\<ge>0. b = Fin r \<Longrightarrow> num_le a b \<Longrightarrow> num_le (Math_sqrt a) (Math_sqrt b)"
  by auto

lemma computeBoundingSphere_readable:
  "attributes g ''position'' = Some p \<Longrightarrow> \<not> isGLBufferAttribute p \<Longrightarrow>
   boundingSphere (fst (computeBoundingSphere g))
     = Some \<lparr>center = getCenter (fitPositionBox p (morphAttributes g ''position'') (morphTargetsRelative g)),
             radius = Math_sqrt (maxRadiusSq
               (getCenter (fitPositionBox p (morphAttributes g ''position'') (morphTargetsRelative g)))
               p (morphAttributes g ''position'') (morphTargetsRelative g))\<rparr>"
  by (simp add: computeBoundingSphere_def Let_def)

lemma sphereVertices_finite:
  assumes p: "finiteAttribute p"
    and ms: "\<forall>ms. morph = Some ms \<longrightarrow>
               (\<forall>m\<in>set ms. finiteAttribute m \<and> (rel \<longrightarrow> attr_count m \<le> attr_count p))"
    and v: "v \<in> set (sphereVertices p morph rel)"
  shows "finiteVector v"
proof -
  from v consider (base) i where "i < attr_count p" "v = fromBufferAttribute p (Some i)"
    | (morph) ts m j where "morph = Some ts" "m \<in> set ts" "j < attr_count m"
        "v = morphVertex rel p m j"
    by (cases morph) (auto simp add: sphereVertices_def)
  then show ?thesis
  proof cases
    case base
    with p show ?thesis by (simp add: finiteAttribute_def)
  next
    case morph
    with ms have m: "finiteAttribute m" and r: "rel \<longrightarrow> attr_count m \<le> attr_count p" by auto
    from m morph(3) have d: "finiteVector (fromBufferAttribute m (Some j))"
      by (simp add: finiteAttribute_def)
    show ?thesis
    proof (cases rel)
      case True
      with r morph(3) have "j < attr_count p" by simp
      with p have "finiteVector (fromBufferAttribute p (Some j))" by (simp add: finiteAttribute_def)
      with d True morph(4) show ?thesis by (simp add: morphVertex_def addVectors_finite)
    next
      case False
      with d morph(4) show ?thesis by (simp add: morphVertex_def)
    qed
  qed
qed

lemma computeBoundingSphere_finite_data:
  assumes pos: "attributes g ''position'' = Some p" and gl: "\<not> isGLBufferAttribute p"
    and ne: "0 < attr_count p"
    and fin: "finitePositions g"
    and mne: "morphTargetsNonEmpty g"
    and within: "morphTargetsRelative g \<longrightarrow> morphTargetsWithinBase g"
  shows "\<exists>s b. boundingSphere (fst (computeBoundingSphere g)) = Some s
    \<and> boundingBox (fst (computeBoundingBox g)) = Some b
    \<and> center s = multiplyScalar (addVectors (box_min b) (box_max b)) (Fin (1/2))
    \<and> (\<forall>v\<in>set (sphereVertices p (morphAttributes g ''position'') (morphTargetsRelative g)).
          num_le (distanceTo (center s) v) (radius s))
    \<and> (\<exists>M. radius s = Math_sqrt M
          \<and> (\<forall>v\<in>set (sphereVertices p (morphAttributes g ''position'') (morphTargetsRelative g)).
                num_le (distanceToSquared (center s) v) M)
          \<and> (\<exists>v\<in>set (sphereVertices p (morphAttributes g ''position'') (morphTargetsRelative g)).
                distanceToSquared (center s) v = M))"
proof -
  let ?morph = "morphAttributes g ''position''"
  let ?rel = "morphTargetsRelative g"
  let ?B = "fitPositionBox p ?morph ?rel"
  let ?c = "getCenter ?B"
  let ?V = "sphereVertices p ?morph ?rel"
  let ?M = "maxRadiusSq ?c p ?morph ?rel"
  from pos fin have p: "finiteAttribute p" by (simp add: finitePositions_def)
  have ms1: "\<forall>ms. ?morph = Some ms \<longrightarrow> (\<forall>m\<in>set ms. finiteAttribute m \<and> 0 < attr_count m)"
    using fin mne by (simp add: finitePositions_def morphTargetsNonEmpty_def)
  then have ms2: "\<forall>ms. ?morph = Some ms \<longrightarrow>
      (\<forall>m\<in>set ms. finiteAttribute m \<and> (?rel \<longrightarrow> 0 < attr_count m))" by simp
  have ms3: "\<forall>ms. ?morph = Some ms \<longrightarrow>
      (\<forall>m\<in>set ms. finiteAttribute m \<and> (?rel \<longrightarrow> attr_count m \<le> attr_count p))"
    using ms1 within pos by (simp add: morphTargetsWithinBase_def)
  have fB: "finiteBox ?B" using p ne ms1 by (rule fitPositionBox_finite)
  have "containsPoint ?B (fromBufferAttribute p (Some 0))"
    using fitPositionBox_bounds(2) [OF p ms2 ne] .
  then have "\<not> isEmpty ?B" by (rule containsPoint_not_empty)
  then have c: "?c = multiplyScalar (addVectors (box_min ?B) (box_max ?B)) (Fin (1/2))"
    by (simp add: getCenter_def)
  have fc: "finiteVector ?c" using fB by (rule getCenter_finite)
  have fv: "finiteVector v" if "v \<in> set ?V" for v
    using p ms3 that by (rule sphereVertices_finite)
  have ds: "\<forall>d\<in>set (map (distanceToSquared ?c) ?V). \<exists>r\<ge>0. d = Fin r"
    using distanceToSquared_finite [OF fc] fv by auto
  have "?V \<noteq> []" using ne by (simp add: sphereVertices_def)
  then have "map (distanceToSquared ?c) ?V \<noteq> []" by simp
  from fold_max_attained [OF ds this]
  have M: "\<exists>r\<ge>0. ?M = Fin r"
    and le: "\<forall>v\<in>set ?V. num_le (distanceToSquared ?c v) ?M"
    and att: "\<exists>v\<in>set ?V. distanceToSquared ?c v = ?M"
    unfolding maxRadiusSq_eq by auto
  have within_r: "num_le (distanceTo ?c v) (Math_sqrt ?M)" if "v \<in> set ?V" for v
    unfolding distanceTo_def
    using distanceToSquared_finite [OF fc fv [OF that]] M le that by (intro Math_sqrt_mono) auto
  let ?s = "\<lparr>center = ?c, radius = Math_sqrt ?M\<rparr>"
  have 1: "boundingSphere (fst (computeBoundingSphere g)) = Some ?s"
    by (rule computeBoundingSphere_readable [OF pos gl])
  have 2: "boundingBox (fst (computeBoundingBox g)) = Some ?B"
    by (rule computeBoundingBox_readable [OF pos gl])
  have 3: "center ?s = multiplyScalar (addVectors (box_min ?B) (box_max ?B)) (Fin (1/2))"
    using c by simp
  have 4: "\<forall>v\<in>set ?V. num_le (distanceTo (center ?s) v) (radius ?s)"
    using within_r by simp
  have 5: "\<exists>M. radius ?s = Math_sqrt M
          \<and> (\<forall>v\<in>set ?V. num_le (distanceToSquared (center ?s) v) M)
          \<and> (\<exists>v\<in>set ?V. distanceToSquared (center ?s) v = M)"
    using le att by (intro exI [of _ ?M]) simp
  show ?thesis
    apply (rule exI [of _ ?s])
    apply (rule exI [of _ ?B])
    apply (intro conjI 1 2 3 4 5)
    done
qed

section \<open>Bounding volumes of the examples\<close>

lemma morphGeometry_box: "boundingBox (fst (computeBoundingBox morphGeometry))
  = Some \<lparr>box_min = Vector3 (Fin (- 1)) (Fin 0) (Fin 0), box_max = Vector3 (Fin 1) (Fin 1) (Fin 2)\<rparr>"
  by code_simp

lemma nanGeometry_box: "boundingBox (fst (computeBoundingBox nanGeometry))
  = Some \<lparr>box_min = Vector3 NaN (Fin 0) (Fin 0), box_max = Vector3 NaN (Fin 0) (Fin 0)\<rparr>"
  by code_simp

lemma nanGeometry_box_message: "snd (computeBoundingBox nanGeometry) = [nanBoxError]"
  by code_simp

lemma nanGeometry_box_misses: "\<not> containsPoint \<lparr>box_min = Vector3 NaN (Fin 0) (Fin 0), box_max = Vector3 NaN (Fin 0) (Fin 0)\<rparr>
   (fromBufferAttribute nanPositions (Some 0))"
  by code_simp

lemma nanGeometry_fields: "attributes nanGeometry ''position'' = Some nanPositions"
  "\<not> isGLBufferAttribute nanPositions" "morphAttributes nanGeometry ''position'' = None"
  "morphTargetsRelative nanGeometry = False"
  by (simp_all add: nanGeometry_def setAttribute_def nanPositions_def BufferAttribute_new_def
      BufferGeometry_new_def)

lemma nanGeometry_center: "getCenter (fitPositionBox nanPositions None False) = Vector3 NaN (Fin 0) (Fin 0)"
  by code_simp

lemma nanGeometry_maxRadiusSq: "maxRadiusSq (Vector3 NaN (Fin 0) (Fin 0)) nanPositions None False = NaN"
  by code_simp

lemma nanGeometry_sphere: "boundingSphere (fst (computeBoundingSphere nanGeometry))
  = Some \<lparr>center = Vector3 NaN (Fin 0) (Fin 0), radius = NaN\<rparr>"
  by (simp add: computeBoundingSphere_readable [OF nanGeometry_fields(1,2)] nanGeometry_fields nanGeometry_center nanGeometry_maxRadiusSq)

lemma nanGeometry_distance: "distanceTo (Vector3 NaN (Fin 0) (Fin 0)) (fromBufferAttribute nanPositions (Some 0)) = NaN"
proof -
  have "distanceToSquared (Vector3 NaN (Fin 0) (Fin 0)) (fromBufferAttribute nanPositions (Some 0)) = NaN"
    by code_simp
  then show ?thesis by (simp add: distanceTo_def)
qed

lemma morphGeometry_fields: "attributes morphGeometry ''position'' = Some trianglePositions"
  "\<not> isGLBufferAttribute trianglePositions"
  "morphAttributes morphGeometry ''position'' = Some [morphDeltas]"
  "morphTargetsRelative morphGeometry = True"
  by (simp_all add: morphGeometry_def setAttribute_def trianglePositions_def BufferAttribute_new_def
      BufferGeometry_new_def)

lemma morphGeometry_center: "getCenter (fitPositionBox trianglePositions (Some [morphDeltas]) True)
   = Vector3 (Fin 0) (Fin (1/2)) (Fin 1)"
  by code_simp

lemma morphGeometry_maxRadiusSq: "maxRadiusSq (Vector3 (Fin 0) (Fin (1/2)) (Fin 1)) trianglePositions (Some [morphDeltas]) True = Fin (9/4)"
  by code_simp

lemma sqrt_9_4: "sqrt (9/4) = 3/2"
  by (rule real_sqrt_unique) (simp_all add: power2_eq_square)

lemma morphGeometry_sphere: "boundingSphere (fst (computeBoundingSphere morphGeometry))
  = Some \<lparr>center = Vector3 (Fin 0) (Fin (1/2)) (Fin 1), radius = Fin (3/2)\<rparr>"
  by (simp add: computeBoundingSphere_readable [OF morphGeometry_fields(1,2)] morphGeometry_fields morphGeometry_center morphGeometry_maxRadiusSq sqrt_9_4)

lemma all_less_3: "(\<forall>i<3. P i) \<longleftrightarrow> P (0::nat) \<and> P 1 \<and> P 2"
proof -
  have "i < 3 \<longleftrightarrow> i = 0 \<or> i = 1 \<or> i = 2" for i :: nat by arith
  then show ?thesis by auto
qed

lemma morphGeometry_counts: "attr_count trianglePositions = 3" "attr_count morphDeltas = 3"
  by code_simp+

lemma trianglePositions_finite: "finiteAttribute trianglePositions"
  unfolding finiteAttribute_def morphGeometry_counts all_less_3 by code_simp

lemma morphDeltas_finite: "finiteAttribute morphDeltas"
  unfolding finiteAttribute_def morphGeometry_counts all_less_3 by code_simp

lemma morphGeometry_finite: "finitePositions morphGeometry"
  by (simp add: finitePositions_def morphGeometry_fields trianglePositions_finite morphDeltas_finite)

lemma morphGeometry_nonempty: "morphTargetsNonEmpty morphGeometry"
  by (simp add: morphTargetsNonEmpty_def morphGeometry_fields morphGeometry_counts)

lemma morphGeometry_within: "morphTargetsWithinBase morphGeometry"
  by (simp add: morphTargetsWithinBase_def morphGeometry_fields morphGeometry_counts)

lemma morphGeometry_vertices: "sphereVertices trianglePositions (Some [morphDeltas]) True
  = [Vector3 (Fin 0) (Fin 0) (Fin 0), Vector3 (Fin 1) (Fin 0) (Fin 0), Vector3 (Fin 0) (Fin 1) (Fin 0),
     Vector3 (Fin 0) (Fin 0) (Fin 1), Vector3 (Fin 1) (Fin 0) (Fin 2), Vector3 (Fin (- 1)) (Fin 1) (Fin 0)]"
  by code_simp

lemma morphGeometry_wellFormed: "wellFormedGeometry morphGeometry"
  by (auto simp add: wellFormedGeometry_def morphGeometry_def setAttribute_def
      BufferGeometry_new_def ran_def wellFormed_def morphDeltas_def trianglePositions_def
      BufferAttribute_new_def split: if_splits)

lemma computeBoundingSphere_readable_messages:
  "attributes g ''position'' = Some p \<Longrightarrow> \<not> isGLBufferAttribute p \<Longrightarrow>
   snd (computeBoundingSphere g)
     = (if isNaN (Math_sqrt (maxRadiusSq
               (getCenter (fitPositionBox p (morphAttributes g ''position'') (morphTargetsRelative g)))
               p (morphAttributes g ''position'') (morphTargetsRelative g)))
        then [nanSphereError] else [])"
  by (simp add: computeBoundingSphere_def Let_def)

lemma nanPositions_count: "attr_count nanPositions = 2"
  by code_simp

section \<open>The bounding box\<close>

text \<open>
  C1, as the claim states it, fails: of two position vertices, \<open>(0, 0, 0)\<close> and
  \<open>(NaN, 0, 0)\<close>, in a readable attribute, neither lies in the stored box, whose corners
  have \<open>NaN\<close> as their first coordinate; \<^verbatim>\<open>computeBoundingBox\<close> reports just that.
\<close>

theorem computeBoundingBox_nan_counterexample:
  "attributes nanGeometry ''position'' = Some nanPositions
   \<and> \<not> isGLBufferAttribute nanPositions
   \<and> attr_count nanPositions = 2
   \<and> fromBufferAttribute nanPositions (Some 0) = Vector3 (Fin 0) (Fin 0) (Fin 0)
   \<and> boundingBox (fst (computeBoundingBox nanGeometry))
       = Some \<lparr>box_min = Vector3 NaN (Fin 0) (Fin 0), box_max = Vector3 NaN (Fin 0) (Fin 0)\<rparr>
   \<and> \<not> containsPoint \<lparr>box_min = Vector3 NaN (Fin 0) (Fin 0), box_max = Vector3 NaN (Fin 0) (Fin 0)\<rparr>
         (fromBufferAttribute nanPositions (Some 0))
   \<and> \<not> containsPoint \<lparr>box_min = Vector3 NaN (Fin 0) (Fin 0), box_max = Vector3 NaN (Fin 0) (Fin 0)\<rparr>
         (fromBufferAttribute nanPositions (Some 1))
   \<and> snd (computeBoundingBox nanGeometry) = [nanBoxError]"
proof -
  have "fromBufferAttribute nanPositions (Some 0) = Vector3 (Fin 0) (Fin 0) (Fin 0)"
    by code_simp
  moreover have "\<not> containsPoint
      \<lparr>box_min = Vector3 NaN (Fin 0) (Fin 0), box_max = Vector3 NaN (Fin 0) (Fin 0)\<rparr>
      (fromBufferAttribute nanPositions (Some 1))"
    by code_simp
  ultimately show ?thesis
    using nanGeometry_fields(1,2) nanPositions_count nanGeometry_box nanGeometry_box_misses
      nanGeometry_box_message
    by simp
qed

text \<open>
  C1, amended. Take a geometry that satisfies the data model's invariant, has a readable
  position attribute, holds only finite numbers in its position vertices and in the
  vertices of its position morph targets, and, when the morph targets are relative, has no
  empty morph target. After \<^verbatim>\<open>computeBoundingBox\<close> a box is stored, every position vertex
  lies in it, and so does every morph-expanded position: in absolute mode every vertex
  of every morph target, in relative mode the sum of every morph vertex and the base
  vertex of the same number, where there is one.
\<close>

theorem computeBoundingBox_bounds:
  assumes "attributes g ''position'' = Some p" and "\<not> isGLBufferAttribute p"
    and "wellFormedGeometry g"
    and "finitePositions g"
    and "morphTargetsRelative g \<longrightarrow> morphTargetsNonEmpty g"
  shows "\<exists>b. boundingBox (fst (computeBoundingBox g)) = Some b
    \<and> (\<forall>i<attr_count p. containsPoint b (fromBufferAttribute p (Some i)))
    \<and> (\<forall>ms. morphAttributes g ''position'' = Some ms \<longrightarrow>
          (\<forall>m\<in>set ms. \<forall>j<attr_count m. (morphTargetsRelative g \<longrightarrow> j < attr_count p) \<longrightarrow>
             containsPoint b (morphVertex (morphTargetsRelative g) p m j)))"
  using assms(1,2,4,5) by (rule computeBoundingBox_finite_data)

theorem computeBoundingBox_bounds_witness:
  "attributes morphGeometry ''position'' = Some trianglePositions
   \<and> \<not> isGLBufferAttribute trianglePositions
   \<and> wellFormedGeometry morphGeometry
   \<and> finitePositions morphGeometry
   \<and> morphTargetsNonEmpty morphGeometry
   \<and> boundingBox (fst (computeBoundingBox morphGeometry))
       = Some \<lparr>box_min = Vector3 (Fin (- 1)) (Fin 0) (Fin 0), box_max = Vector3 (Fin 1) (Fin 1) (Fin 2)\<rparr>
   \<and> containsPoint \<lparr>box_min = Vector3 (Fin (- 1)) (Fin 0) (Fin 0), box_max = Vector3 (Fin 1) (Fin 1) (Fin 2)\<rparr>
        (fromBufferAttribute trianglePositions (Some 1))
   \<and> containsPoint \<lparr>box_min = Vector3 (Fin (- 1)) (Fin 0) (Fin 0), box_max = Vector3 (Fin 1) (Fin 1) (Fin 2)\<rparr>
        (morphVertex True trianglePositions morphDeltas 2)"
proof -
  have r: "morphTargetsRelative morphGeometry \<longrightarrow> morphTargetsNonEmpty morphGeometry"
    using morphGeometry_nonempty by simp
  from computeBoundingBox_bounds [OF morphGeometry_fields(1,2) morphGeometry_wellFormed
      morphGeometry_finite r]
  obtain b where b: "boundingBox (fst (computeBoundingBox morphGeometry)) = Some b"
    and v: "\<forall>i<attr_count trianglePositions. containsPoint b (fromBufferAttribute trianglePositions (Some i))"
    and m: "\<forall>ms. morphAttributes morphGeometry ''position'' = Some ms \<longrightarrow>
          (\<forall>m\<in>set ms. \<forall>j<attr_count m.
             (morphTargetsRelative morphGeometry \<longrightarrow> j < attr_count trianglePositions) \<longrightarrow>
             containsPoint b (morphVertex (morphTargetsRelative morphGeometry) trianglePositions m j))"
    by blast
  from b morphGeometry_box
  have e: "b = \<lparr>box_min = Vector3 (Fin (- 1)) (Fin 0) (Fin 0), box_max = Vector3 (Fin 1) (Fin 1) (Fin 2)\<rparr>"
    by simp
  from v have c1: "containsPoint b (fromBufferAttribute trianglePositions (Some 1))"
    by (simp add: morphGeometry_counts)
  from m morphGeometry_fields(3,4)
  have c2: "containsPoint b (morphVertex True trianglePositions morphDeltas 2)"
    by (simp add: morphGeometry_counts)
  from c1 c2 e morphGeometry_fields(1,2) morphGeometry_wellFormed morphGeometry_finite
    morphGeometry_nonempty morphGeometry_box
  show ?thesis by simp
qed

section \<open>The bounding sphere\<close>

text \<open>
  C2, as the claim states it, fails on the same two vertices: the stored radius is \<open>NaN\<close>,
  the vertex \<open>(0, 0, 0)\<close> is not within it, and \<^verbatim>\<open>computeBoundingSphere\<close> reports just that.
\<close>

theorem computeBoundingSphere_nan_counterexample:
  "attributes nanGeometry ''position'' = Some nanPositions
   \<and> \<not> isGLBufferAttribute nanPositions
   \<and> attr_count nanPositions = 2
   \<and> boundingSphere (fst (computeBoundingSphere nanGeometry))
       = Some \<lparr>center = Vector3 NaN (Fin 0) (Fin 0), radius = NaN\<rparr>
   \<and> \<not> num_le (distanceTo (Vector3 NaN (Fin 0) (Fin 0)) (fromBufferAttribute nanPositions (Some 0))) NaN
   \<and> snd (computeBoundingSphere nanGeometry) = [nanSphereError]"
  using nanGeometry_fields nanPositions_count nanGeometry_sphere nanGeometry_distance
  by (simp add: computeBoundingSphere_readable_messages [OF nanGeometry_fields(1,2)]
      nanGeometry_center nanGeometry_maxRadiusSq)

text \<open>
  C2, amended. Take a geometry that satisfies the data model's invariant, has a readable
  position attribute with at least one vertex, holds only finite numbers in its position
  vertices and in the vertices of its position morph targets, has no empty morph target
  and, when the morph targets are relative, no morph target with more vertices than the
  position attribute. After \<^verbatim>\<open>computeBoundingSphere\<close> a sphere is stored; its centre is the
  midpoint of the corners of the box \<^verbatim>\<open>computeBoundingBox\<close> stores for the same geometry;
  every position vertex and every morph-expanded vertex is within the radius of the
  centre; and the radius is the square root of the largest squared distance from the
  centre to one of these vertices, which one of them attains.
\<close>

theorem computeBoundingSphere_encloses:
  assumes "attributes g ''position'' = Some p" and "\<not> isGLBufferAttribute p"
    and "0 < attr_count p"
    and "wellFormedGeometry g"
    and "finitePositions g"
    and "morphTargetsNonEmpty g"
    and "morphTargetsRelative g \<longrightarrow> morphTargetsWithinBase g"
  shows "\<exists>s b. boundingSphere (fst (computeBoundingSphere g)) = Some s
    \<and> boundingBox (fst (computeBoundingBox g)) = Some b
    \<and> center s = multiplyScalar (addVectors (box_min b) (box_max b)) (Fin (1/2))
    \<and> (\<forall>v\<in>set (sphereVertices p (morphAttributes g ''position'') (morphTargetsRelative g)).
          num_le (distanceTo (center s) v) (radius s))
    \<and> (\<exists>M. radius s = Math_sqrt M
          \<and> (\<forall>v\<in>set (sphereVertices p (morphAttributes g ''position'') (morphTargetsRelative g)).
                num_le (distanceToSquared (center s) v) M)
          \<and> (\<exists>v\<in>set (sphereVertices p (morphAttributes g ''position'') (morphTargetsRelative g)).
                distanceToSquared (center s) v = M))"
  using assms(1,2,3,5,6,7) by (rule computeBoundingSphere_finite_data)

theorem computeBoundingSphere_encloses_witness:
  "attributes morphGeometry ''position'' = Some trianglePositions
   \<and> \<not> isGLBufferAttribute trianglePositions
   \<and> attr_count trianglePositions = 3
   \<and> wellFormedGeometry morphGeometry
   \<and> finitePositions morphGeometry
   \<and> morphTargetsNonEmpty morphGeometry
   \<and> morphTargetsWithinBase morphGeometry
   \<and> boundingSphere (fst (computeBoundingSphere morphGeometry))
       = Some \<lparr>center = Vector3 (Fin 0) (Fin (1/2)) (Fin 1), radius = Fin (3/2)\<rparr>
   \<and> num_le (distanceTo (Vector3 (Fin 0) (Fin (1/2)) (Fin 1)) (Vector3 (Fin 0) (Fin 0) (Fin 1)))
        (Fin (3/2))
   \<and> num_le (distanceTo (Vector3 (Fin 0) (Fin (1/2)) (Fin 1)) (Vector3 (Fin (- 1)) (Fin 1) (Fin 0)))
        (Fin (3/2))"
proof -
  have n: "0 < attr_count trianglePositions" by (simp add: morphGeometry_counts)
  have w: "morphTargetsRelative morphGeometry \<longrightarrow> morphTargetsWithinBase morphGeometry"
    using morphGeometry_within by simp
  from computeBoundingSphere_encloses [OF morphGeometry_fields(1,2) n morphGeometry_wellFormed
      morphGeometry_finite morphGeometry_nonempty w]
  obtain s where s: "boundingSphere (fst (computeBoundingSphere morphGeometry)) = Some s"
    and v: "\<forall>v\<in>set (sphereVertices trianglePositions (morphAttributes morphGeometry ''position'')
                      (morphTargetsRelative morphGeometry)).
              num_le (distanceTo (center s) v) (radius s)"
    by blast
  from s morphGeometry_sphere
  have e: "s = \<lparr>center = Vector3 (Fin 0) (Fin (1/2)) (Fin 1), radius = Fin (3/2)\<rparr>" by simp
  from v have "\<forall>v\<in>set (sphereVertices trianglePositions (Some [morphDeltas]) True).
              num_le (distanceTo (Vector3 (Fin 0) (Fin (1/2)) (Fin 1)) v) (Fin (3/2))"
    by (simp add: e morphGeometry_fields(3,4))
  then have "num_le (distanceTo (Vector3 (Fin 0) (Fin (1/2)) (Fin 1)) (Vector3 (Fin 0) (Fin 0) (Fin 1)))
        (Fin (3/2))"
    and "num_le (distanceTo (Vector3 (Fin 0) (Fin (1/2)) (Fin 1)) (Vector3 (Fin (- 1)) (Fin 1) (Fin 0)))
        (Fin (3/2))"
    unfolding morphGeometry_vertices by simp_all
  with morphGeometry_fields(1,2) morphGeometry_counts(1) morphGeometry_wellFormed
    morphGeometry_finite morphGeometry_nonempty morphGeometry_within morphGeometry_sphere
  show ?thesis by simp
qed

end
